theory Spec2Isabelle
  imports Main "HOL-Library.Word"
begin

section \<open>The distributed task dispatcher (package dispatcher)\<close>

text \<open>
  The embedding follows \<^verbatim>\<open>dispatcher.go\<close> (the second document of
  \<^verbatim>\<open>src/unnamed/part_001\<close>). Logging calls and the test-only failpoints are left out;
  everything else a function does is written as explicit state passing.
\<close>

subsection \<open>Task states\<close>

text \<open>
  The Go code names task states by the string constants \<^verbatim>\<open>proto.TaskState...\<close>; package
  \<^verbatim>\<open>proto\<close> is not among the sources, so the thirteen constants the transition table
  mentions are the constructors of an enumeration.
\<close>

datatype TaskState =
    TaskStatePending
  | TaskStateRunning
  | TaskStateSucceed
  | TaskStateReverting
  | TaskStateFailed
  | TaskStateRevertFailed
  | TaskStateCancelling
  | TaskStateCanceled
  | TaskStatePausing
  | TaskStatePaused
  | TaskStateResuming
  | TaskStateRevertPending
  | TaskStateReverted

text \<open>The map literal \<^verbatim>\<open>rules\<close> of \<^verbatim>\<open>VerifyTaskStateTransform\<close>, key by key.\<close>

fun rules :: "TaskState \<Rightarrow> TaskState list" where
  "rules TaskStatePending =
     [TaskStateRunning, TaskStateCancelling, TaskStatePausing, TaskStateSucceed, TaskStateFailed]"
| "rules TaskStateRunning =
     [TaskStateSucceed, TaskStateReverting, TaskStateFailed, TaskStateCancelling, TaskStatePausing]"
| "rules TaskStateSucceed = []"
| "rules TaskStateReverting = [TaskStateReverted]"
| "rules TaskStateFailed = []"
| "rules TaskStateRevertFailed = []"
| "rules TaskStateCancelling = [TaskStateReverting]"
| "rules TaskStateCanceled = []"
| "rules TaskStatePausing = [TaskStatePaused]"
| "rules TaskStatePaused = [TaskStateResuming]"
| "rules TaskStateResuming = [TaskStateRunning]"
| "rules TaskStateRevertPending = []"
| "rules TaskStateReverted = []"

text \<open>The loop \<^verbatim>\<open>for _, state := range rules[from]\<close>: true at the first entry equal to \<open>to\<close>.\<close>

fun stateInRule :: "TaskState list \<Rightarrow> TaskState \<Rightarrow> bool" where
  "stateInRule [] to = False"
| "stateInRule (state # rest) to = (if state = to then True else stateInRule rest to)"

definition VerifyTaskStateTransform :: "TaskState \<Rightarrow> TaskState \<Rightarrow> bool" where
  "VerifyTaskStateTransform from to =
     (if from = to then True else stateInRule (rules from) to)"

subsection \<open>Tasks, subtasks, servers and errors\<close>

type_synonym bytes = "8 word list"

text \<open>
  Go errors are values. \<open>ErrorsNew msg\<close> is \<^verbatim>\<open>errors.New(msg)\<close>; \<open>ErrInvalidTransform\<close> is
  the \<^verbatim>\<open>errors.Errorf("invalid task state transform, from %s to %s", ...)\<close> of
  \<^verbatim>\<open>updateTask\<close>, kept with its two arguments; \<open>ErrPrecondition\<close> is the failure of the
  storage primitive whose expected previous state does not match (the specification names the
  failure, not its message); \<open>PanicNilDispatcher\<close> stands for the run-time panic of a method
  call on a nil \<^verbatim>\<open>Dispatcher\<close> interface value.
\<close>

datatype error =
    ErrorsNew string
  | ErrInvalidTransform TaskState TaskState
  | ErrPrecondition
  | PanicNilDispatcher

text \<open>
  \<^verbatim>\<open>proto.Task\<close>, with the fields the dispatcher reads or writes. \<^verbatim>\<open>Concurrency\<close> is a
  \<^verbatim>\<open>uint64\<close>; the two times are readings of \<^verbatim>\<open>time.Now().UTC()\<close>, here natural numbers
  handed to the functions that read the clock.
\<close>

record Task =
  ID :: int
  Type :: string
  State :: TaskState
  Step :: int
  Concurrency :: "64 word"
  StartTime :: nat
  StateUpdateTime :: nat
  Error :: "error option"

text \<open>
  Modelled from the spec: \<^verbatim>\<open>proto.Subtask\<close> and \<^verbatim>\<open>proto.NewSubtask\<close> are not among the
  sources. A subtask built by the driver carries the task id, the type copied from the task, the
  target node and the meta; its state lives on the stored row.
\<close>

record Subtask =
  TaskID :: int
  SubtaskType :: string
  SchedulerID :: string
  Meta :: bytes

definition NewSubtask :: "int \<Rightarrow> string \<Rightarrow> string \<Rightarrow> bytes \<Rightarrow> Subtask" where
  "NewSubtask taskID tp schedulerID meta =
     \<lparr>TaskID = taskID, SubtaskType = tp, SchedulerID = schedulerID, Meta = meta\<rparr>"

text \<open>\<^verbatim>\<open>infosync.ServerInfo\<close>, with the three fields the dispatcher and its tests use.\<close>

record ServerInfo =
  ServerID :: string
  IP :: string
  Port :: nat

definition digitChar :: "nat \<Rightarrow> char" where
  "digitChar n = ''0123456789'' ! n"

function decimal :: "nat \<Rightarrow> string" where
  "decimal n = (if n < 10 then [digitChar n] else decimal (n div 10) @ [digitChar (n mod 10)])"
  by pat_completeness auto
termination
  by (relation "measure (\<lambda>n. n)") auto

declare decimal.simps [simp del]

text \<open>
  Modelled from the spec: \<^verbatim>\<open>disttaskutil.GenerateExecID\<close> is not among the sources. It is
  the canonical \<^verbatim>\<open>ip:port\<close> form, an IPv6 address (one that contains a colon) wrapped in
  brackets, as in the server ids of \<^verbatim>\<open>TestGetInstance\<close>.
\<close>

definition GenerateExecID :: "string \<Rightarrow> nat \<Rightarrow> string" where
  "GenerateExecID ip port =
     (if CHR '':'' \<in> set ip then ''['' @ ip @ '']'' else ip) @ '':'' @ decimal port"

subsection \<open>The storage interface\<close>

text \<open>
  Modelled from the spec: \<^verbatim>\<open>storage.TaskManager\<close> is not among the sources. The store
  holds the task table and the subtask table. Two fields stand for what the environment decides:
  \<open>updateFaults\<close> scripts the outcome of the coming calls of
  \<open>UpdateGlobalTaskAndAddSubTasks\<close> (one entry per call, a missing entry is \<open>NoFault\<close>), and
  \<open>readFault\<close> makes the read operations fail. \<open>updateCalls\<close> records every call of
  \<open>UpdateGlobalTaskAndAddSubTasks\<close> with its arguments, so that the number of persist
  attempts can be stated.
\<close>

datatype fault = NoFault | Transient error | Permanent error

record SubtaskRow =
  RowSubtask :: Subtask
  RowState :: TaskState

record TaskManager =
  globalTasks :: "Task list"
  subtaskRows :: "SubtaskRow list"
  updateFaults :: "fault list"
  readFault :: "error option"
  updateCalls :: "(Task \<times> Subtask list \<times> TaskState) list"

fun GetGlobalTaskByID :: "Task list \<Rightarrow> int \<Rightarrow> Task option" where
  "GetGlobalTaskByID [] taskID = None"
| "GetGlobalTaskByID (t # ts) taskID = (if ID t = taskID then Some t else GetGlobalTaskByID ts taskID)"

definition writeTaskRow :: "Task \<Rightarrow> Task list \<Rightarrow> Task list" where
  "writeTaskRow gTask ts = map (\<lambda>t. if ID t = ID gTask then gTask else t) ts"

text \<open>
  A new subtask row is Pending, or RevertPending when the task is written as Reverting: the
  invariants of section 3 of the specification, and what \<^verbatim>\<open>checkDispatch\<close> counts after a
  dispatch.
\<close>

definition newSubtaskRow :: "Task \<Rightarrow> Subtask \<Rightarrow> SubtaskRow" where
  "newSubtaskRow gTask sub =
     \<lparr>RowSubtask = sub,
      RowState = (if State gTask = TaskStateReverting then TaskStateRevertPending
                  else TaskStatePending)\<rparr>"

definition nextFault :: "TaskManager \<Rightarrow> fault" where
  "nextFault tm = (case updateFaults tm of [] \<Rightarrow> NoFault | f # _ \<Rightarrow> f)"

text \<open>
  \<open>update_task_and_add_subtasks(task, new_subtasks, expected_prev_state)\<close> of section 4.3:
  in one transaction it checks that the persisted state is the expected one, writes the task
  row and inserts the subtasks. The result is \<open>(retryable, err)\<close>: a transient failure is
  retryable, a violated precondition is not, and a failed call leaves both tables unchanged.
\<close>

definition UpdateGlobalTaskAndAddSubTasks ::
  "TaskManager \<Rightarrow> Task \<Rightarrow> Subtask list \<Rightarrow> TaskState \<Rightarrow> (bool \<times> error option) \<times> TaskManager" where
  "UpdateGlobalTaskAndAddSubTasks tm gTask subtasks prevState =
     (let tm1 = tm\<lparr>updateFaults := tl (updateFaults tm),
                   updateCalls := updateCalls tm @ [(gTask, subtasks, prevState)]\<rparr>
      in case nextFault tm of
           Transient e \<Rightarrow> ((True, Some e), tm1)
         | Permanent e \<Rightarrow> ((False, Some e), tm1)
         | NoFault \<Rightarrow>
             (case GetGlobalTaskByID (globalTasks tm) (ID gTask) of
                None \<Rightarrow> ((False, Some ErrPrecondition), tm1)
              | Some row \<Rightarrow>
                  if State row \<noteq> prevState then ((False, Some ErrPrecondition), tm1)
                  else ((False, None),
                        tm1\<lparr>globalTasks := writeTaskRow gTask (globalTasks tm),
                            subtaskRows := subtaskRows tm @ map (newSubtaskRow gTask) subtasks\<rparr>)))"

text \<open>\<open>count_subtasks_in_states(task_id, states...)\<close> of section 4.3.\<close>

definition GetSubtaskInStatesCnt :: "TaskManager \<Rightarrow> int \<Rightarrow> TaskState list \<Rightarrow> error + int" where
  "GetSubtaskInStatesCnt tm taskID states =
     (case readFault tm of
        Some e \<Rightarrow> Inl e
      | None \<Rightarrow>
          Inr (int (length (filter (\<lambda>r. TaskID (RowSubtask r) = taskID \<and> RowState r \<in> set states)
                                   (subtaskRows tm)))))"

subsection \<open>The strategy and the driver\<close>

text \<open>
  The \<^verbatim>\<open>Dispatcher\<close> interface, as the test implementations show it: a value with a state
  of its own (\<^verbatim>\<open>planErrDispatcher.callTime\<close>) and its methods. \<^verbatim>\<open>OnTick\<close> and
  \<^verbatim>\<open>OnNextStage\<close> receive the task by pointer and may change it; \<^verbatim>\<open>OnNextStage\<close> reads the
  store through its handle. \<^verbatim>\<open>OnErrStage\<close> is used only on the revert path, which is not
  modelled here.
\<close>

record 'i Dispatcher =
  implState :: 'i
  OnTick :: "'i \<Rightarrow> Task \<Rightarrow> 'i \<times> Task"
  OnNextStage :: "'i \<Rightarrow> TaskManager \<Rightarrow> Task \<Rightarrow> (error + bytes list) \<times> 'i \<times> Task"
  GetEligibleInstances :: "'i \<Rightarrow> Task \<Rightarrow> error + ServerInfo list"
  IsRetryableErr :: "'i \<Rightarrow> error \<Rightarrow> bool"

text \<open>
  The \<^verbatim>\<open>dispatcher\<close> struct. \<open>taskMgr\<close> holds the state of the store the pointer leads to.
  \<open>retrySQLTimes\<close> is the package variable of that name: its initial value
  \<^verbatim>\<open>variable.DefTiDBDDLErrorCountLimit\<close> is not among the sources, so it is part of the state.
  The contexts and the random generator are left out.
\<close>

record 'i dispatcher =
  taskMgr :: TaskManager
  task :: Task
  serverID :: string
  impl :: "'i Dispatcher option"
  liveNodes :: "ServerInfo list"
  liveNodeFetchInterval :: int
  liveNodeFetchTick :: int
  taskNodes :: "string list"
  retrySQLTimes :: int

definition DefaultSubtaskConcurrency :: "64 word" where
  "DefaultSubtaskConcurrency = 16"

definition MaxSubtaskConcurrency :: "64 word" where
  "MaxSubtaskConcurrency = 256"

definition DefaultLiveNodesCheckInterval :: int where
  "DefaultLiveNodesCheckInterval = 2"

definition nonRetrySQLTime :: int where
  "nonRetrySQLTime = 1"

text \<open>
  The retry loop of \<^verbatim>\<open>updateTask\<close>:
  \<^verbatim>\<open>for i := 0; i < retryTimes; i++ { retryable, err = ...; if err == nil || !retryable { break }; ... }\<close>.
  \<open>err\<close> is the named result, nil before the first iteration.
\<close>

function updateTaskLoop ::
  "Task \<Rightarrow> Subtask list \<Rightarrow> TaskState \<Rightarrow> int \<Rightarrow> int \<Rightarrow> error option \<Rightarrow> TaskManager
   \<Rightarrow> error option \<times> TaskManager" where
  "updateTaskLoop gTask newSubTasks prevState retryTimes i err tm =
     (if i < retryTimes then
        (case UpdateGlobalTaskAndAddSubTasks tm gTask newSubTasks prevState of
           ((retryable, err'), tm') \<Rightarrow>
             if err' = None \<or> \<not> retryable then (err', tm')
             else updateTaskLoop gTask newSubTasks prevState retryTimes (i + 1) err' tm')
      else (err, tm))"
  by pat_completeness auto
termination
  by (relation "measure (\<lambda>(gTask, newSubTasks, prevState, retryTimes, i, err, tm). nat (retryTimes - i))")
     auto

declare updateTaskLoop.simps [simp del]

definition updateTask ::
  "'i dispatcher \<Rightarrow> TaskState \<Rightarrow> Subtask list \<Rightarrow> int \<Rightarrow> error option \<times> 'i dispatcher" where
  "updateTask d taskState newSubTasks retryTimes =
     (let prevState = State (task d);
          d1 = d\<lparr>task := (task d)\<lparr>State := taskState\<rparr>\<rparr>
      in if \<not> VerifyTaskStateTransform prevState taskState
         then (Some (ErrInvalidTransform prevState taskState), d1)
         else (case updateTaskLoop (task d1) newSubTasks prevState retryTimes 0 None (taskMgr d1) of
                 (err, tm') \<Rightarrow> (err, d1\<lparr>taskMgr := tm'\<rparr>)))"

text \<open>
  The loop of \<^verbatim>\<open>dispatchSubTask\<close> over the metas: the subtask of the meta at index \<open>i\<close>
  goes to the server at \<open>i % len(serverNodes)\<close>. The caller has checked that \<open>serverNodes\<close>
  is not empty.
\<close>

fun assignSubTasks :: "Task \<Rightarrow> ServerInfo list \<Rightarrow> nat \<Rightarrow> bytes list \<Rightarrow> Subtask list" where
  "assignSubTasks t serverNodes i [] = []"
| "assignSubTasks t serverNodes i (meta # rest) =
     (let pos = i mod length serverNodes;
          instanceID = GenerateExecID (IP (serverNodes ! pos)) (Port (serverNodes ! pos))
      in NewSubtask (ID t) (Type t) instanceID meta # assignSubTasks t serverNodes (Suc i) rest)"

text \<open>
  Steps 1 and 2 of \<^verbatim>\<open>dispatchSubTask\<close> change the task before anything is dispatched:
  the concurrency is adjusted, and a task that is still Pending gets its start time.
\<close>

definition adjustConcurrency :: "Task \<Rightarrow> Task" where
  "adjustConcurrency t0 =
     (let t1 = (if Concurrency t0 = 0 then t0\<lparr>Concurrency := DefaultSubtaskConcurrency\<rparr> else t0)
      in if Concurrency t1 > MaxSubtaskConcurrency
         then t1\<lparr>Concurrency := MaxSubtaskConcurrency\<rparr> else t1)"

definition stampNewTask :: "nat \<Rightarrow> Task \<Rightarrow> Task" where
  "stampNewTask nowTime t =
     (if State t = TaskStatePending
      then t\<lparr>StartTime := nowTime, StateUpdateTime := nowTime\<rparr> else t)"

text \<open>
  \<^verbatim>\<open>dispatchSubTask(task, metas)\<close>. Every caller passes \<^verbatim>\<open>d.task\<close>, so the parameter
  \<open>task\<close> is the driver's own task. \<open>nowTime\<close> and \<open>nowTime2\<close> are the readings of the
  clock in the Pending branch and in the branch of the empty meta list. The last line passes
  \<open>retrySQLTimes\<close>, not the local \<open>retryTimes\<close>, as the source does.
\<close>

definition dispatchSubTask ::
  "nat \<Rightarrow> nat \<Rightarrow> 'i dispatcher \<Rightarrow> bytes list \<Rightarrow> error option \<times> 'i dispatcher" where
  "dispatchSubTask nowTime nowTime2 d metas =
     (let t = stampNewTask nowTime (adjustConcurrency (task d));
          retryTimes = (if State t = TaskStatePending then nonRetrySQLTime else retrySQLTimes d)
      in if length metas = 0 then
           updateTask (d\<lparr>task := t\<lparr>StateUpdateTime := nowTime2\<rparr>\<rparr>) TaskStateSucceed [] retryTimes
         else
           (case impl d of
              None \<Rightarrow> (Some PanicNilDispatcher, d\<lparr>task := t\<rparr>)
            | Some im \<Rightarrow>
                (case GetEligibleInstances im (implState im) t of
                   Inl err \<Rightarrow> (Some err, d\<lparr>task := t\<rparr>)
                 | Inr serverNodes \<Rightarrow>
                     if length serverNodes = 0 then
                       (Some (ErrorsNew ''no available TiDB node to dispatch subtasks''),
                        d\<lparr>task := t\<rparr>)
                     else
                       updateTask
                         (d\<lparr>task := t,
                            taskNodes := map (\<lambda>n. GenerateExecID (IP n) (Port n)) serverNodes\<rparr>)
                         TaskStateRunning
                         (assignSubTasks t serverNodes 0 metas)
                         (retrySQLTimes d))))"

definition handlePlanErr :: "'i dispatcher \<Rightarrow> error \<Rightarrow> error option \<times> 'i dispatcher" where
  "handlePlanErr d err =
     (case impl d of
        None \<Rightarrow> (Some PanicNilDispatcher, d)
      | Some im \<Rightarrow>
          if IsRetryableErr im (implState im) err then (Some err, d)
          else updateTask (d\<lparr>task := (task d)\<lparr>Error := Some err\<rparr>\<rparr>) TaskStateFailed []
                 (retrySQLTimes d))"

definition onNextStage :: "nat \<Rightarrow> nat \<Rightarrow> 'i dispatcher \<Rightarrow> error option \<times> 'i dispatcher" where
  "onNextStage nowTime nowTime2 d =
     (case impl d of
        None \<Rightarrow> (Some PanicNilDispatcher, d)
      | Some im \<Rightarrow>
          (case OnNextStage im (implState im) (taskMgr d) (task d) of
             (res, st', t') \<Rightarrow>
               (let d1 = d\<lparr>impl := Some (im\<lparr>implState := st'\<rparr>), task := t'\<rparr>
                in case res of
                     Inl err \<Rightarrow> handlePlanErr d1 err
                   | Inr metas \<Rightarrow> dispatchSubTask nowTime nowTime2 d1 metas)))"

definition onPending :: "nat \<Rightarrow> nat \<Rightarrow> 'i dispatcher \<Rightarrow> error option \<times> 'i dispatcher" where
  "onPending nowTime nowTime2 d = onNextStage nowTime nowTime2 d"

definition onReverting :: "'i dispatcher \<Rightarrow> error option \<times> 'i dispatcher" where
  "onReverting d =
     (case GetSubtaskInStatesCnt (taskMgr d) (ID (task d))
             [TaskStateRevertPending, TaskStateReverting] of
        Inl err \<Rightarrow> (Some err, d)
      | Inr cnt \<Rightarrow>
          (let prevStageFinished = (cnt = 0)
           in if prevStageFinished then updateTask d TaskStateReverted [] (retrySQLTimes d)
              else
                (case impl d of
                   None \<Rightarrow> (Some PanicNilDispatcher, d)
                 | Some im \<Rightarrow>
                     (case OnTick im (implState im) (task d) of
                        (st', t') \<Rightarrow>
                          (None, d\<lparr>impl := Some (im\<lparr>implState := st'\<rparr>), task := t'\<rparr>)))))"

text \<open>
  \<^verbatim>\<open>newDispatcher\<close>. \<open>GetTaskDispatcher\<close> is the registry of strategies by task type, which
  the manager owns; it is a parameter, as is the value of \<open>retrySQLTimes\<close>. The Go function
  returns \<^verbatim>\<open>(*dispatcher, error)\<close>; the model also returns the store and the caller's task
  as the call leaves them.
\<close>

definition newDispatcher ::
  "int \<Rightarrow> (string \<Rightarrow> 'i Dispatcher option) \<Rightarrow> TaskManager \<Rightarrow> string \<Rightarrow> Task
   \<Rightarrow> ('i dispatcher option \<times> error option) \<times> TaskManager \<times> Task" where
  "newDispatcher retrySQLTimes0 GetTaskDispatcher tm serverID0 task0 =
     (let impl0 = GetTaskDispatcher (Type task0);
          dsp = \<lparr>taskMgr = tm, task = task0, serverID = serverID0, impl = impl0,
                 liveNodes = [], liveNodeFetchInterval = DefaultLiveNodesCheckInterval,
                 liveNodeFetchTick = 0, taskNodes = [], retrySQLTimes = retrySQLTimes0\<rparr>
      in if impl dsp = None then
           (case updateTask (dsp\<lparr>task := (task dsp)\<lparr>Error := Some (ErrorsNew ''unsupported task type'')\<rparr>\<rparr>)
                   TaskStateFailed [] (retrySQLTimes dsp) of
              (err, dsp') \<Rightarrow> ((None, err), taskMgr dsp', task dsp'))
         else ((Some dsp, None), tm, task0))"

text \<open>The table of section 4.1 of the specification, as a list of pairs.\<close>

definition legalPairs :: "(TaskState \<times> TaskState) list" where
  "legalPairs =
     [(TaskStatePending, TaskStateRunning), (TaskStatePending, TaskStateCancelling),
      (TaskStatePending, TaskStatePausing), (TaskStatePending, TaskStateSucceed),
      (TaskStatePending, TaskStateFailed),
      (TaskStateRunning, TaskStateSucceed), (TaskStateRunning, TaskStateReverting),
      (TaskStateRunning, TaskStateFailed), (TaskStateRunning, TaskStateCancelling),
      (TaskStateRunning, TaskStatePausing),
      (TaskStateReverting, TaskStateReverted),
      (TaskStateCancelling, TaskStateReverting),
      (TaskStatePausing, TaskStatePaused),
      (TaskStatePaused, TaskStateResuming),
      (TaskStateResuming, TaskStateRunning)]"

definition sinkStates :: "TaskState list" where
  "sinkStates =
     [TaskStateSucceed, TaskStateFailed, TaskStateReverted, TaskStateCanceled,
      TaskStateRevertFailed, TaskStateRevertPending]"

subsection \<open>What the store holds for a task\<close>

text \<open>The state of the stored row of a task, if there is one.\<close>

definition storedState :: "TaskManager \<Rightarrow> int \<Rightarrow> TaskState option" where
  "storedState tm taskID = map_option State (GetGlobalTaskByID (globalTasks tm) taskID)"

subsection \<open>A concrete driver\<close>

text \<open>
  A task of the example type, a store that holds its row, the two servers of
  \<^verbatim>\<open>TestGetInstance\<close>, and a strategy that returns a fixed plan, a fixed list of eligible
  servers and a fixed answer of \<^verbatim>\<open>IsRetryableErr\<close>, and counts the calls of
  \<^verbatim>\<open>OnTick\<close>. With an empty plan it is \<^verbatim>\<open>testDispatcher\<close>; with the plan error
  \<^verbatim>\<open>"not retryable err"\<close> and the answer false it is \<^verbatim>\<open>planNotRetryableErrDispatcher\<close>.
  The driver's \<open>retrySQLTimes\<close> is 512.
\<close>

definition exampleTask :: "TaskState \<Rightarrow> Task" where
  "exampleTask st =
     \<lparr>ID = 1, Type = ''task_example'', State = st, Step = 0, Concurrency = 0,
      StartTime = 0, StateUpdateTime = 0, Error = None\<rparr>"

definition exampleStore :: "TaskState \<Rightarrow> fault list \<Rightarrow> SubtaskRow list \<Rightarrow> TaskManager" where
  "exampleStore st faults rows =
     \<lparr>globalTasks = [exampleTask st], subtaskRows = rows, updateFaults = faults,
      readFault = None, updateCalls = []\<rparr>"

definition exampleNodes :: "ServerInfo list" where
  "exampleNodes =
     [\<lparr>ServerID = ''ddl_id_1'', IP = ''10.123.124.10'', Port = 32457\<rparr>,
      \<lparr>ServerID = ''ddl_id_2'', IP = ''ABCD:EF01:2345:6789:ABCD:EF01:2345:6789'', Port = 65535\<rparr>]"

definition exampleImpl :: "(error + bytes list) \<Rightarrow> ServerInfo list \<Rightarrow> bool \<Rightarrow> nat Dispatcher" where
  "exampleImpl plan nodes retryable =
     \<lparr>implState = 0,
      OnTick = (\<lambda>n t. (Suc n, t)),
      OnNextStage = (\<lambda>n tm t. (plan, n, t)),
      GetEligibleInstances = (\<lambda>n t. Inr nodes),
      IsRetryableErr = (\<lambda>n e. retryable)\<rparr>"

definition exampleDriver ::
  "TaskState \<Rightarrow> fault list \<Rightarrow> SubtaskRow list \<Rightarrow> nat Dispatcher option \<Rightarrow> nat dispatcher" where
  "exampleDriver st faults rows im =
     \<lparr>taskMgr = exampleStore st faults rows, task = exampleTask st, serverID = ''host:port'',
      impl = im, liveNodes = [], liveNodeFetchInterval = DefaultLiveNodesCheckInterval,
      liveNodeFetchTick = 0, taskNodes = [], retrySQLTimes = 512\<rparr>"

text \<open>
  A registry that knows one task type, a Pending task of another type, and a store that holds
  its row.
\<close>

definition exampleRegistry :: "string \<Rightarrow> nat Dispatcher option" where
  "exampleRegistry tp =
     (if tp = ''task_example'' then Some (exampleImpl (Inr []) exampleNodes True) else None)"

definition unknownTask :: Task where
  "unknownTask = (exampleTask TaskStatePending)\<lparr>Type := ''task_unknown''\<rparr>"

definition unknownStore :: "fault list \<Rightarrow> TaskManager" where
  "unknownStore faults =
     \<lparr>globalTasks = [unknownTask], subtaskRows = [], updateFaults = faults,
      readFault = None, updateCalls = []\<rparr>"

text \<open>
  Four servers with ids of their own, three of them at the same address and port: the strategy's
  list is used as it is returned, and nothing in \<^verbatim>\<open>dispatchSubTask\<close> removes a repeated
  \<^verbatim>\<open>ip:port\<close>.
\<close>

definition repeatedNodes :: "ServerInfo list" where
  "repeatedNodes =
     [\<lparr>ServerID = ''ddl_id_1'', IP = ''10.0.0.1'', Port = 4000\<rparr>,
      \<lparr>ServerID = ''ddl_id_2'', IP = ''10.0.0.1'', Port = 4000\<rparr>,
      \<lparr>ServerID = ''ddl_id_3'', IP = ''10.0.0.1'', Port = 4000\<rparr>,
      \<lparr>ServerID = ''ddl_id_4'', IP = ''10.0.0.2'', Port = 4000\<rparr>]"

subsection \<open>Subtasks per node\<close>

text \<open>The number of subtasks of a list that are assigned to a node.\<close>

definition subtasksOn :: "string \<Rightarrow> Subtask list \<Rightarrow> nat" where
  "subtasksOn node subs = length (filter (\<lambda>s. SchedulerID s = node) subs)"

subsection \<open>Properties of the transition predicate\<close>

text \<open>
  C1. \<open>VerifyTaskStateTransform\<close> accepts every identity pair, accepts a pair of distinct
  states exactly when it is one of the fifteen pairs of the table, and so rejects every other
  pair; the six sink states have no outgoing transition to a different state.
\<close>

theorem VerifyTaskStateTransform_table:
  "VerifyTaskStateTransform s s
   \<and> (from \<noteq> to \<longrightarrow>
        VerifyTaskStateTransform from to = ((from, to) \<in> set legalPairs))
   \<and> (from \<in> set sinkStates \<and> from \<noteq> to \<longrightarrow> \<not> VerifyTaskStateTransform from to)"
  by (cases "from"; cases to)
     (simp_all add: VerifyTaskStateTransform_def legalPairs_def sinkStates_def)

theorem VerifyTaskStateTransform_table_witness:
  "VerifyTaskStateTransform TaskStateRunning TaskStateRunning
   \<and> TaskStateCancelling \<noteq> TaskStateRunning
   \<and> \<not> VerifyTaskStateTransform TaskStateCancelling TaskStateRunning
   \<and> TaskStatePending \<noteq> TaskStateRunning
   \<and> VerifyTaskStateTransform TaskStatePending TaskStateRunning
   \<and> TaskStateCanceled \<in> set sinkStates
   \<and> \<not> VerifyTaskStateTransform TaskStateCanceled TaskStateRunning"
  using VerifyTaskStateTransform_table [of TaskStateRunning TaskStateCancelling TaskStateRunning]
        VerifyTaskStateTransform_table [of TaskStateRunning TaskStatePending TaskStateRunning]
        VerifyTaskStateTransform_table [of TaskStateRunning TaskStateCanceled TaskStateRunning]
  by (simp add: legalPairs_def sinkStates_def)


subsection \<open>The storage primitive and the retry loop\<close>

lemmas example_defs =
  exampleTask_def exampleStore_def exampleNodes_def exampleImpl_def exampleDriver_def

lemma update_calls:
  "updateCalls (snd (UpdateGlobalTaskAndAddSubTasks tm g s p)) = updateCalls tm @ [(g, s, p)]"
  by (simp add: UpdateGlobalTaskAndAddSubTasks_def Let_def split: fault.splits option.splits)

lemma update_no_subtasks:
  "subtaskRows (snd (UpdateGlobalTaskAndAddSubTasks tm g [] p)) = subtaskRows tm"
  by (simp add: UpdateGlobalTaskAndAddSubTasks_def Let_def split: fault.splits option.splits)

lemma GetGlobalTaskByID_write:
  "GetGlobalTaskByID ts (ID g) = Some row \<Longrightarrow> GetGlobalTaskByID (writeTaskRow g ts) (ID g) = Some g"
  by (induction ts) (auto simp: writeTaskRow_def)

lemma update_healthy:
  assumes "nextFault tm = NoFault" "GetGlobalTaskByID (globalTasks tm) (ID g) = Some row" "State row = p"
  shows "UpdateGlobalTaskAndAddSubTasks tm g s p =
           ((False, None),
            tm\<lparr>updateFaults := tl (updateFaults tm),
               updateCalls := updateCalls tm @ [(g, s, p)],
               globalTasks := writeTaskRow g (globalTasks tm),
               subtaskRows := subtaskRows tm @ map (newSubtaskRow g) s\<rparr>)"
  using assms by (simp add: UpdateGlobalTaskAndAddSubTasks_def Let_def)

lemma loop_healthy:
  assumes "nextFault tm = NoFault" "GetGlobalTaskByID (globalTasks tm) (ID g) = Some row" "State row = p"
    and "i < rt"
  shows "updateTaskLoop g s p rt i err tm =
           (None,
            tm\<lparr>updateFaults := tl (updateFaults tm),
               updateCalls := updateCalls tm @ [(g, s, p)],
               globalTasks := writeTaskRow g (globalTasks tm),
               subtaskRows := subtaskRows tm @ map (newSubtaskRow g) s\<rparr>)"
  using assms by (subst updateTaskLoop.simps) (simp add: update_healthy)

lemma loop_invariant:
  "(\<And>x. P x \<Longrightarrow> P (snd (UpdateGlobalTaskAndAddSubTasks x g s p))) \<Longrightarrow> P tm
   \<Longrightarrow> P (snd (updateTaskLoop g s p rt i err tm))"
proof (induction g s p rt i err tm rule: updateTaskLoop.induct)
  case (1 g s p rt i err tm)
  note IH = "1.IH" and step = "1.prems"(1) and P = "1.prems"(2)
  show ?case
  proof (cases "i < rt")
    case False
    with P show ?thesis by (subst updateTaskLoop.simps) simp
  next
    case True
    obtain retryable err' tm' where U: "UpdateGlobalTaskAndAddSubTasks tm g s p = ((retryable, err'), tm')"
      by (metis prod.exhaust)
    have P': "P tm'"
      using step [OF P] U by simp
    show ?thesis
    proof (cases "err' = None \<or> \<not> retryable")
      case stop: True
      with True U P' show ?thesis by (subst updateTaskLoop.simps) auto
    next
      case again: False
      have "P (snd (updateTaskLoop g s p rt (i + 1) err' tm'))"
        using IH [OF True U [symmetric] refl again step P'] .
      with True U again show ?thesis by (subst updateTaskLoop.simps) auto
    qed
  qed
qed

lemma loop_no_subtasks:
  "subtaskRows (snd (updateTaskLoop g [] p rt i err tm)) = subtaskRows tm"
  by (rule loop_invariant [where P = "\<lambda>x. subtaskRows x = subtaskRows tm"])
     (simp_all add: update_no_subtasks)

lemma loop_calls:
  "\<exists>k. updateCalls (snd (updateTaskLoop g s p rt i err tm)) = updateCalls tm @ replicate k (g, s, p)
       \<and> int k \<le> max 0 (rt - i) \<and> (i < rt \<longrightarrow> 0 < k)"
proof (induction g s p rt i err tm rule: updateTaskLoop.induct)
  case (1 g s p rt i err tm)
  note IH = "1.IH"
  show ?case
  proof (cases "i < rt")
    case False
    then have "updateTaskLoop g s p rt i err tm = (err, tm)" by (subst updateTaskLoop.simps) simp
    with False show ?thesis by (intro exI [of _ 0]) simp
  next
    case True
    obtain retryable err' tm' where U: "UpdateGlobalTaskAndAddSubTasks tm g s p = ((retryable, err'), tm')"
      by (metis prod.exhaust)
    have calls: "updateCalls tm' = updateCalls tm @ [(g, s, p)]"
      using update_calls [of tm g s p] U by simp
    show ?thesis
    proof (cases "err' = None \<or> \<not> retryable")
      case stop: True
      with True U have "updateTaskLoop g s p rt i err tm = (err', tm')"
        by (subst updateTaskLoop.simps) auto
      with calls True show ?thesis by (intro exI [of _ 1]) simp
    next
      case again: False
      with True U have eq: "updateTaskLoop g s p rt i err tm = updateTaskLoop g s p rt (i + 1) err' tm'"
        by (subst updateTaskLoop.simps) auto
      obtain k where k: "updateCalls (snd (updateTaskLoop g s p rt (i + 1) err' tm')) = updateCalls tm' @ replicate k (g, s, p)"
        "int k \<le> max 0 (rt - (i + 1))"
        using IH [OF True U [symmetric] refl again] by auto
      show ?thesis
        using eq k calls True by (intro exI [of _ "Suc k"]) (simp add: replicate_app_Cons_same)
    qed
  qed
qed

lemma updateTask_task: "task (snd (updateTask d s subs rt)) = (task d)\<lparr>State := s\<rparr>"
  by (simp add: updateTask_def Let_def split: prod.splits)

lemma updateTask_invalid:
  "\<not> VerifyTaskStateTransform (State (task d)) s \<Longrightarrow>
   updateTask d s subs rt = (Some (ErrInvalidTransform (State (task d)) s), d\<lparr>task := (task d)\<lparr>State := s\<rparr>\<rparr>)"
  by (simp add: updateTask_def Let_def)

lemma updateTask_no_subtasks:
  "subtaskRows (taskMgr (snd (updateTask d s [] rt))) = subtaskRows (taskMgr d)"
  using loop_no_subtasks [of "(task d)\<lparr>State := s\<rparr>" "State (task d)" rt 0 None "taskMgr d"]
  by (auto simp: updateTask_def Let_def split: prod.splits)

lemma updateTask_healthy:
  assumes "VerifyTaskStateTransform (State (task d)) s"
    and "nextFault (taskMgr d) = NoFault"
    and "GetGlobalTaskByID (globalTasks (taskMgr d)) (ID (task d)) = Some row"
    and "State row = State (task d)" and "0 < rt"
  shows "updateTask d s subs rt =
           (None,
            d\<lparr>task := (task d)\<lparr>State := s\<rparr>,
              taskMgr := (taskMgr d)\<lparr>updateFaults := tl (updateFaults (taskMgr d)),
               updateCalls := updateCalls (taskMgr d) @ [((task d)\<lparr>State := s\<rparr>, subs, State (task d))],
               globalTasks := writeTaskRow ((task d)\<lparr>State := s\<rparr>) (globalTasks (taskMgr d)),
               subtaskRows := subtaskRows (taskMgr d) @ map (newSubtaskRow ((task d)\<lparr>State := s\<rparr>)) subs\<rparr>\<rparr>)"
  using assms loop_healthy [of "taskMgr d" "(task d)\<lparr>State := s\<rparr>" row "State (task d)" 0 rt subs None]
  by (simp add: updateTask_def Let_def)


lemma updateTask_calls:
  "\<exists>k. updateCalls (taskMgr (snd (updateTask d s subs rt))) =
         updateCalls (taskMgr d) @ replicate k ((task d)\<lparr>State := s\<rparr>, subs, State (task d))
       \<and> int k \<le> max 0 rt
       \<and> (VerifyTaskStateTransform (State (task d)) s \<and> 0 < rt \<longrightarrow> 0 < k)"
proof (cases "VerifyTaskStateTransform (State (task d)) s")
  case False
  then show ?thesis by (intro exI [of _ 0]) (simp add: updateTask_invalid)
next
  case True
  obtain k where "updateCalls (snd (updateTaskLoop ((task d)\<lparr>State := s\<rparr>) subs (State (task d)) rt 0 None (taskMgr d)))
      = updateCalls (taskMgr d) @ replicate k ((task d)\<lparr>State := s\<rparr>, subs, State (task d))"
    "int k \<le> max 0 (rt - 0)" "0 < rt \<longrightarrow> 0 < k"
    using loop_calls [of "(task d)\<lparr>State := s\<rparr>" subs "State (task d)" rt 0 None "taskMgr d"] by auto
  with True show ?thesis
    by (intro exI [of _ k]) (auto simp: updateTask_def Let_def split: prod.splits)
qed

subsection \<open>A rejected transition\<close>

text \<open>
  C10. \<open>updateTask\<close> assigns the target state to the driver's task before it checks the
  transition: when \<open>VerifyTaskStateTransform\<close> rejects the pair, \<open>updateTask\<close> returns the
  error, the store is untouched (no call of the storage primitive), and the task in memory holds
  the rejected target state, which differs from the previous one.
\<close>

theorem updateTask_rejected_keeps_target:
  assumes "\<not> VerifyTaskStateTransform (State (task d)) taskState"
  shows "updateTask d taskState newSubTasks retryTimes =
           (Some (ErrInvalidTransform (State (task d)) taskState),
            d\<lparr>task := (task d)\<lparr>State := taskState\<rparr>\<rparr>)
         \<and> taskMgr (snd (updateTask d taskState newSubTasks retryTimes)) = taskMgr d
         \<and> State (task (snd (updateTask d taskState newSubTasks retryTimes))) = taskState
         \<and> State (task (snd (updateTask d taskState newSubTasks retryTimes))) \<noteq> State (task d)"
proof -
  from assms have "taskState \<noteq> State (task d)"
    by (auto simp: VerifyTaskStateTransform_def)
  with assms show ?thesis by (simp add: updateTask_invalid)
qed

theorem updateTask_rejected_keeps_target_witness:
  "\<not> VerifyTaskStateTransform (State (task (exampleDriver TaskStateCancelling [] [] None))) TaskStateRunning
   \<and> fst (updateTask (exampleDriver TaskStateCancelling [] [] None) TaskStateRunning [] 512)
       = Some (ErrInvalidTransform TaskStateCancelling TaskStateRunning)
   \<and> taskMgr (snd (updateTask (exampleDriver TaskStateCancelling [] [] None) TaskStateRunning [] 512))
       = exampleStore TaskStateCancelling [] []
   \<and> State (task (snd (updateTask (exampleDriver TaskStateCancelling [] [] None) TaskStateRunning [] 512)))
       = TaskStateRunning"
proof -
  have h: "\<not> VerifyTaskStateTransform (State (task (exampleDriver TaskStateCancelling [] [] None))) TaskStateRunning"
    by (simp add: example_defs VerifyTaskStateTransform_def)
  show ?thesis
    using h updateTask_rejected_keeps_target [OF h, of "[]" 512]
    by (simp add: example_defs)
qed

subsection \<open>The concurrency of a dispatched task\<close>

lemma adjustConcurrency_value:
  "Concurrency (adjustConcurrency t) =
     (if Concurrency t = 0 then 16 else if 256 < Concurrency t then 256 else Concurrency t)"
  by (simp add: adjustConcurrency_def Let_def DefaultSubtaskConcurrency_def MaxSubtaskConcurrency_def)

lemma stampNewTask_fields:
  "Concurrency (stampNewTask n t) = Concurrency t" "State (stampNewTask n t) = State t"
  "ID (stampNewTask n t) = ID t" "Type (stampNewTask n t) = Type t" "Error (stampNewTask n t) = Error t"
  by (simp_all add: stampNewTask_def)

lemma adjustConcurrency_fields:
  "State (adjustConcurrency t) = State t"
  "ID (adjustConcurrency t) = ID t" "Type (adjustConcurrency t) = Type t" "Error (adjustConcurrency t) = Error t"
  by (simp_all add: adjustConcurrency_def Let_def)

lemma dispatchSubTask_cases:
  "(\<exists>d' s subs rt. dispatchSubTask nowTime nowTime2 d metas = updateTask d' s subs rt
       \<and> Concurrency (task d') = Concurrency (adjustConcurrency (task d)) \<and> taskMgr d' = taskMgr d)
   \<or> (taskMgr (snd (dispatchSubTask nowTime nowTime2 d metas)) = taskMgr d
       \<and> task (snd (dispatchSubTask nowTime nowTime2 d metas)) = stampNewTask nowTime (adjustConcurrency (task d)))"
  unfolding dispatchSubTask_def Let_def
  by (auto split: option.splits sum.splits simp: stampNewTask_fields intro!: exI)

text \<open>
  C8. Before dispatching, the task's concurrency is normalised: 0 becomes
  \<open>DefaultSubtaskConcurrency\<close> (16), a value above \<open>MaxSubtaskConcurrency\<close> becomes 256,
  and any other value stays. This holds for the driver's task after \<open>dispatchSubTask\<close> on
  every path, and for the task of every call of the storage primitive the dispatch makes.
\<close>

theorem dispatchSubTask_concurrency:
  "Concurrency (task (snd (dispatchSubTask nowTime nowTime2 d metas))) =
     (if Concurrency (task d) = 0 then 16
      else if 256 < Concurrency (task d) then 256 else Concurrency (task d))
   \<and> (\<forall>c \<in> set (drop (length (updateCalls (taskMgr d)))
                    (updateCalls (taskMgr (snd (dispatchSubTask nowTime nowTime2 d metas))))).
        Concurrency (fst c) =
          (if Concurrency (task d) = 0 then 16
           else if 256 < Concurrency (task d) then 256 else Concurrency (task d)))"
proof -
  let ?r = "dispatchSubTask nowTime nowTime2 d metas"
  let ?c = "if Concurrency (task d) = 0 then 16
            else if 256 < Concurrency (task d) then 256 else Concurrency (task d)"
  from dispatchSubTask_cases [of nowTime nowTime2 d metas]
  show ?thesis
  proof (elim disjE exE conjE)
    fix d' :: "'a dispatcher" and s subs rt
    assume eq: "?r = updateTask d' s subs rt"
      and c: "Concurrency (task d') = Concurrency (adjustConcurrency (task d))"
      and tm: "taskMgr d' = taskMgr d"
    obtain k where k: "updateCalls (taskMgr (snd (updateTask d' s subs rt))) =
         updateCalls (taskMgr d') @ replicate k ((task d')\<lparr>State := s\<rparr>, subs, State (task d'))"
      using updateTask_calls [of d' s subs rt] by auto
    have "Concurrency (task (snd ?r)) = ?c"
      using eq c by (simp add: updateTask_task adjustConcurrency_value)
    moreover have "\<forall>c \<in> set (drop (length (updateCalls (taskMgr d))) (updateCalls (taskMgr (snd ?r)))).
        Concurrency (fst c) = ?c"
      using eq k c tm by (auto simp: adjustConcurrency_value)
    ultimately show ?thesis by simp
  next
    assume "taskMgr (snd ?r) = taskMgr d"
      and "task (snd ?r) = stampNewTask nowTime (adjustConcurrency (task d))"
    then show ?thesis by (simp add: stampNewTask_fields adjustConcurrency_value)
  qed
qed

theorem dispatchSubTask_concurrency_witness:
  "Concurrency (task (snd (dispatchSubTask 7 8
       (exampleDriver TaskStatePending [] [] (Some (exampleImpl (Inr []) exampleNodes True))) [[49]]))) = 16
   \<and> Concurrency (task (snd (dispatchSubTask 7 8
       ((exampleDriver TaskStatePending [] [] (Some (exampleImpl (Inr []) exampleNodes True)))
          \<lparr>task := (exampleTask TaskStatePending)\<lparr>Concurrency := 1000\<rparr>\<rparr>) [[49]]))) = 256
   \<and> Concurrency (task (snd (dispatchSubTask 7 8
       ((exampleDriver TaskStatePending [] [] (Some (exampleImpl (Inr []) exampleNodes True)))
          \<lparr>task := (exampleTask TaskStatePending)\<lparr>Concurrency := 8\<rparr>\<rparr>) [[49]]))) = 8
   \<and> map (\<lambda>c. Concurrency (fst c)) (updateCalls (taskMgr (snd (dispatchSubTask 7 8
       (exampleDriver TaskStatePending [] [] (Some (exampleImpl (Inr []) exampleNodes True))) [[49]])))) = [16]"
  using dispatchSubTask_concurrency [of 7 8
          "exampleDriver TaskStatePending [] [] (Some (exampleImpl (Inr []) exampleNodes True))" "[[49]]"]
        dispatchSubTask_concurrency [of 7 8
          "(exampleDriver TaskStatePending [] [] (Some (exampleImpl (Inr []) exampleNodes True)))
             \<lparr>task := (exampleTask TaskStatePending)\<lparr>Concurrency := 1000\<rparr>\<rparr>" "[[49]]"]
        dispatchSubTask_concurrency [of 7 8
          "(exampleDriver TaskStatePending [] [] (Some (exampleImpl (Inr []) exampleNodes True)))
             \<lparr>task := (exampleTask TaskStatePending)\<lparr>Concurrency := 8\<rparr>\<rparr>" "[[49]]"]
  by (simp add: example_defs dispatchSubTask_def adjustConcurrency_def stampNewTask_def Let_def
        DefaultSubtaskConcurrency_def MaxSubtaskConcurrency_def updateTask_def
        VerifyTaskStateTransform_def updateTaskLoop.simps UpdateGlobalTaskAndAddSubTasks_def
        nextFault_def)

subsection \<open>A persist that the store accepts\<close>

lemma updateTask_persists:
  assumes legal: "VerifyTaskStateTransform (State (task d)) s"
    and ok: "nextFault (taskMgr d) = NoFault"
    and row: "storedState (taskMgr d) (ID (task d)) = Some (State (task d))"
    and rt: "0 < rt"
  shows "fst (updateTask d s subs rt) = None"
    and "task (snd (updateTask d s subs rt)) = (task d)\<lparr>State := s\<rparr>"
    and "GetGlobalTaskByID (globalTasks (taskMgr (snd (updateTask d s subs rt)))) (ID (task d))
           = Some ((task d)\<lparr>State := s\<rparr>)"
    and "storedState (taskMgr (snd (updateTask d s subs rt))) (ID (task d)) = Some s"
    and "updateCalls (taskMgr (snd (updateTask d s subs rt)))
           = updateCalls (taskMgr d) @ [((task d)\<lparr>State := s\<rparr>, subs, State (task d))]"
    and "subtaskRows (taskMgr (snd (updateTask d s subs rt)))
           = subtaskRows (taskMgr d) @ map (newSubtaskRow ((task d)\<lparr>State := s\<rparr>)) subs"
proof -
  from row obtain r where r: "GetGlobalTaskByID (globalTasks (taskMgr d)) (ID (task d)) = Some r"
    "State r = State (task d)"
    by (auto simp: storedState_def)
  note eq = updateTask_healthy [OF legal ok r rt, of subs]
  have w: "GetGlobalTaskByID (writeTaskRow ((task d)\<lparr>State := s\<rparr>) (globalTasks (taskMgr d))) (ID (task d))
             = Some ((task d)\<lparr>State := s\<rparr>)"
    using GetGlobalTaskByID_write [of "globalTasks (taskMgr d)" "(task d)\<lparr>State := s\<rparr>" r] r by simp
  show "fst (updateTask d s subs rt) = None" by (simp add: eq)
  show "task (snd (updateTask d s subs rt)) = (task d)\<lparr>State := s\<rparr>" by (simp add: eq)
  show "GetGlobalTaskByID (globalTasks (taskMgr (snd (updateTask d s subs rt)))) (ID (task d))
           = Some ((task d)\<lparr>State := s\<rparr>)" by (simp add: eq w)
  show "storedState (taskMgr (snd (updateTask d s subs rt))) (ID (task d)) = Some s"
    by (simp add: eq w storedState_def)
  show "updateCalls (taskMgr (snd (updateTask d s subs rt)))
           = updateCalls (taskMgr d) @ [((task d)\<lparr>State := s\<rparr>, subs, State (task d))]"
    by (simp add: eq)
  show "subtaskRows (taskMgr (snd (updateTask d s subs rt)))
           = subtaskRows (taskMgr d) @ map (newSubtaskRow ((task d)\<lparr>State := s\<rparr>)) subs"
    by (simp add: eq)
qed

lemma updateTask_attempts:
  assumes "VerifyTaskStateTransform (State (task d)) s" "0 < rt"
  shows "updateCalls (taskMgr (snd (updateTask d s subs rt))) \<noteq> updateCalls (taskMgr d)"
  using updateTask_calls [of d s subs rt] assms by auto

subsection \<open>The Reverting state\<close>

text \<open>
  C9. While handling the Reverting state, the driver persists Reverting to Reverted if and
  only if the count of the task's subtasks in RevertPending or Reverting is zero. With a zero
  count \<open>onReverting\<close> is the call of \<open>updateTask\<close> to Reverted; with a non-zero count it
  calls \<open>OnTick\<close> once, leaves the store as it was and returns no error. So the storage
  primitive is called exactly when the count is zero, and in a store that accepts the write
  the stored state becomes Reverted exactly when the count is zero.
\<close>

theorem onReverting_reverted_iff_finished:
  assumes cnt: "GetSubtaskInStatesCnt (taskMgr d) (ID (task d))
                  [TaskStateRevertPending, TaskStateReverting] = Inr cnt"
    and im: "impl d = Some im"
    and st: "State (task d) = TaskStateReverting"
    and rt: "0 < retrySQLTimes d"
  shows "(cnt = 0 \<longrightarrow> onReverting d = updateTask d TaskStateReverted [] (retrySQLTimes d))
       \<and> (cnt \<noteq> 0 \<longrightarrow>
            onReverting d =
              (None, d\<lparr>impl := Some (im\<lparr>implState := fst (OnTick im (implState im) (task d))\<rparr>),
                       task := snd (OnTick im (implState im) (task d))\<rparr>)
            \<and> taskMgr (snd (onReverting d)) = taskMgr d)
       \<and> ((updateCalls (taskMgr (snd (onReverting d))) \<noteq> updateCalls (taskMgr d)) = (cnt = 0))
       \<and> (nextFault (taskMgr d) = NoFault
            \<and> storedState (taskMgr d) (ID (task d)) = Some TaskStateReverting \<longrightarrow>
            (storedState (taskMgr (snd (onReverting d))) (ID (task d)) = Some TaskStateReverted)
              = (cnt = 0))"
proof (cases "cnt = 0")
  case True
  have eq: "onReverting d = updateTask d TaskStateReverted [] (retrySQLTimes d)"
    using cnt True by (simp add: onReverting_def)
  have legal: "VerifyTaskStateTransform (State (task d)) TaskStateReverted"
    by (simp add: st VerifyTaskStateTransform_def)
  have "updateCalls (taskMgr (snd (onReverting d))) \<noteq> updateCalls (taskMgr d)"
    unfolding eq by (rule updateTask_attempts [OF legal rt])
  moreover have "storedState (taskMgr (snd (onReverting d))) (ID (task d)) = Some TaskStateReverted"
    if "nextFault (taskMgr d) = NoFault" "storedState (taskMgr d) (ID (task d)) = Some TaskStateReverting"
    unfolding eq using updateTask_persists(4) [OF legal that(1) _ rt] that(2) st by simp
  ultimately show ?thesis using True eq by simp
next
  case False
  have eq: "onReverting d =
              (None, d\<lparr>impl := Some (im\<lparr>implState := fst (OnTick im (implState im) (task d))\<rparr>),
                       task := snd (OnTick im (implState im) (task d))\<rparr>)"
    using cnt False im by (simp add: onReverting_def split: prod.splits)
  show ?thesis using False by (simp add: eq)
qed

theorem onReverting_reverted_iff_finished_witness:
  "onReverting (exampleDriver TaskStateReverting [] [] (Some (exampleImpl (Inr []) exampleNodes True)))
     = updateTask (exampleDriver TaskStateReverting [] [] (Some (exampleImpl (Inr []) exampleNodes True)))
         TaskStateReverted [] 512
   \<and> storedState (taskMgr (snd (onReverting
        (exampleDriver TaskStateReverting [] [] (Some (exampleImpl (Inr []) exampleNodes True)))))) 1
       = Some TaskStateReverted
   \<and> taskMgr (snd (onReverting
        (exampleDriver TaskStateReverting []
           [\<lparr>RowSubtask = NewSubtask 1 ''task_example'' ''10.123.124.10:32457'' [], RowState = TaskStateReverting\<rparr>]
           (Some (exampleImpl (Inr []) exampleNodes True)))))
       = exampleStore TaskStateReverting []
           [\<lparr>RowSubtask = NewSubtask 1 ''task_example'' ''10.123.124.10:32457'' [], RowState = TaskStateReverting\<rparr>]
   \<and> map_option implState (impl (snd (onReverting
        (exampleDriver TaskStateReverting []
           [\<lparr>RowSubtask = NewSubtask 1 ''task_example'' ''10.123.124.10:32457'' [], RowState = TaskStateReverting\<rparr>]
           (Some (exampleImpl (Inr []) exampleNodes True)))))) = Some 1"
proof -
  let ?im = "exampleImpl (Inr []) exampleNodes True"
  let ?row = "\<lparr>RowSubtask = NewSubtask 1 ''task_example'' ''10.123.124.10:32457'' [],
               RowState = TaskStateReverting\<rparr>"
  let ?d0 = "exampleDriver TaskStateReverting [] [] (Some ?im)"
  let ?d1 = "exampleDriver TaskStateReverting [] [?row] (Some ?im)"
  have c0: "GetSubtaskInStatesCnt (taskMgr ?d0) (ID (task ?d0))
              [TaskStateRevertPending, TaskStateReverting] = Inr 0"
    by (simp add: example_defs GetSubtaskInStatesCnt_def)
  have c1: "GetSubtaskInStatesCnt (taskMgr ?d1) (ID (task ?d1))
              [TaskStateRevertPending, TaskStateReverting] = Inr 1"
    by (simp add: example_defs GetSubtaskInStatesCnt_def NewSubtask_def)
  have i0: "impl ?d0 = Some ?im" and i1: "impl ?d1 = Some ?im"
    by (simp_all add: exampleDriver_def)
  have s0: "State (task ?d0) = TaskStateReverting" and s1: "State (task ?d1) = TaskStateReverting"
    by (simp_all add: exampleDriver_def exampleTask_def)
  have r0: "0 < retrySQLTimes ?d0" and r1: "0 < retrySQLTimes ?d1"
    by (simp_all add: exampleDriver_def)
  have ok0: "nextFault (taskMgr ?d0) = NoFault"
    "storedState (taskMgr ?d0) (ID (task ?d0)) = Some TaskStateReverting"
    by (simp_all add: example_defs nextFault_def storedState_def)
  have f0: "ID (task ?d0) = 1" "retrySQLTimes ?d0 = 512"
    by (simp_all add: exampleDriver_def exampleTask_def)
  have f1: "taskMgr ?d1 = exampleStore TaskStateReverting [] [?row]"
    "OnTick ?im (implState ?im) (task ?d1) = (1, task ?d1)"
    by (simp_all add: exampleDriver_def exampleImpl_def)
  note t0 = onReverting_reverted_iff_finished [OF c0 i0 s0 r0]
  note t1 = onReverting_reverted_iff_finished [OF c1 i1 s1 r1]
  from t0 [THEN conjunct1] f0
  have A: "onReverting ?d0 = updateTask ?d0 TaskStateReverted [] 512"
    by simp
  from t0 [THEN conjunct2, THEN conjunct2, THEN conjunct2] ok0 f0
  have B: "storedState (taskMgr (snd (onReverting ?d0))) 1 = Some TaskStateReverted"
    by simp
  from t1 [THEN conjunct2, THEN conjunct1] f1
  have C: "taskMgr (snd (onReverting ?d1)) = exampleStore TaskStateReverting [] [?row]"
    and D: "map_option implState (impl (snd (onReverting ?d1))) = Some 1"
    by simp_all
  from A B C D show ?thesis by simp
qed

subsection \<open>Errors of the plan\<close>

text \<open>
  C4. When the strategy's \<open>OnNextStage\<close> returns an error: if \<open>IsRetryableErr\<close> says it is
  retryable, the driver returns the error and changes nothing (the store is as before, the task
  is as the strategy's call left it); otherwise the driver stamps the error into the task's
  \<open>Error\<close> and persists the transition to Failed through \<open>updateTask\<close>, so that, from
  Pending or Running and in a store that accepts the write, the stored row is the task with the
  error and the state Failed.
\<close>

theorem onNextStage_plan_error:
  assumes im: "impl d = Some im"
    and plan: "OnNextStage im (implState im) (taskMgr d) (task d) = (Inl err, st', t')"
  shows "(IsRetryableErr im st' err \<longrightarrow>
            onNextStage nowTime nowTime2 d =
              (Some err, d\<lparr>impl := Some (im\<lparr>implState := st'\<rparr>), task := t'\<rparr>)
            \<and> taskMgr (snd (onNextStage nowTime nowTime2 d)) = taskMgr d
            \<and> task (snd (onNextStage nowTime nowTime2 d)) = t')
       \<and> (\<not> IsRetryableErr im st' err \<longrightarrow>
            onNextStage nowTime nowTime2 d =
              updateTask (d\<lparr>impl := Some (im\<lparr>implState := st'\<rparr>), task := t'\<lparr>Error := Some err\<rparr>\<rparr>)
                TaskStateFailed [] (retrySQLTimes d)
            \<and> task (snd (onNextStage nowTime nowTime2 d)) = t'\<lparr>Error := Some err, State := TaskStateFailed\<rparr>)
       \<and> (\<not> IsRetryableErr im st' err
            \<and> (State t' = TaskStatePending \<or> State t' = TaskStateRunning)
            \<and> 0 < retrySQLTimes d
            \<and> nextFault (taskMgr d) = NoFault
            \<and> storedState (taskMgr d) (ID t') = Some (State t') \<longrightarrow>
            fst (onNextStage nowTime nowTime2 d) = None
            \<and> GetGlobalTaskByID (globalTasks (taskMgr (snd (onNextStage nowTime nowTime2 d)))) (ID t')
                = Some (t'\<lparr>Error := Some err, State := TaskStateFailed\<rparr>)
            \<and> subtaskRows (taskMgr (snd (onNextStage nowTime nowTime2 d))) = subtaskRows (taskMgr d))"
proof (cases "IsRetryableErr im st' err")
  case True
  then show ?thesis
    using im plan by (simp add: onNextStage_def handlePlanErr_def Let_def)
next
  case False
  let ?d2 = "d\<lparr>impl := Some (im\<lparr>implState := st'\<rparr>), task := t'\<lparr>Error := Some err\<rparr>\<rparr>"
  have eq: "onNextStage nowTime nowTime2 d = updateTask ?d2 TaskStateFailed [] (retrySQLTimes d)"
    using im plan False by (simp add: onNextStage_def handlePlanErr_def Let_def)
  have t: "task (snd (onNextStage nowTime nowTime2 d)) = t'\<lparr>Error := Some err, State := TaskStateFailed\<rparr>"
    by (simp add: eq updateTask_task)
  have "fst (onNextStage nowTime nowTime2 d) = None
        \<and> GetGlobalTaskByID (globalTasks (taskMgr (snd (onNextStage nowTime nowTime2 d)))) (ID t')
            = Some (t'\<lparr>Error := Some err, State := TaskStateFailed\<rparr>)
        \<and> subtaskRows (taskMgr (snd (onNextStage nowTime nowTime2 d))) = subtaskRows (taskMgr d)"
    if st: "State t' = TaskStatePending \<or> State t' = TaskStateRunning"
      and rt: "0 < retrySQLTimes d"
      and ok: "nextFault (taskMgr d) = NoFault"
      and row: "storedState (taskMgr d) (ID t') = Some (State t')"
  proof -
    have legal: "VerifyTaskStateTransform (State (task ?d2)) TaskStateFailed"
      using st by (auto simp: VerifyTaskStateTransform_def)
    have ok2: "nextFault (taskMgr ?d2) = NoFault" using ok by simp
    have row2: "storedState (taskMgr ?d2) (ID (task ?d2)) = Some (State (task ?d2))"
      using row by simp
    note p = updateTask_persists [OF legal ok2 row2 rt, of "[]"]
    from p(1) p(3) p(6) show ?thesis by (simp add: eq)
  qed
  with False eq t show ?thesis by simp
qed

theorem onNextStage_plan_error_witness:
  "onNextStage 7 8 (exampleDriver TaskStatePending [] []
       (Some (exampleImpl (Inl (ErrorsNew ''retryable err'')) exampleNodes True)))
     = (Some (ErrorsNew ''retryable err''),
        exampleDriver TaskStatePending [] []
          (Some (exampleImpl (Inl (ErrorsNew ''retryable err'')) exampleNodes True)))
   \<and> fst (onNextStage 7 8 (exampleDriver TaskStatePending [] []
       (Some (exampleImpl (Inl (ErrorsNew ''not retryable err'')) exampleNodes False)))) = None
   \<and> GetGlobalTaskByID (globalTasks (taskMgr (snd (onNextStage 7 8 (exampleDriver TaskStatePending [] []
       (Some (exampleImpl (Inl (ErrorsNew ''not retryable err'')) exampleNodes False))))))) 1
       = Some ((exampleTask TaskStateFailed)\<lparr>Error := Some (ErrorsNew ''not retryable err'')\<rparr>)"
proof -
  let ?e1 = "ErrorsNew ''retryable err''" and ?e2 = "ErrorsNew ''not retryable err''"
  let ?i1 = "exampleImpl (Inl ?e1) exampleNodes True"
  let ?i2 = "exampleImpl (Inl ?e2) exampleNodes False"
  let ?d1 = "exampleDriver TaskStatePending [] [] (Some ?i1)"
  let ?d2 = "exampleDriver TaskStatePending [] [] (Some ?i2)"
  have i1: "impl ?d1 = Some ?i1" and i2: "impl ?d2 = Some ?i2"
    by (simp_all add: exampleDriver_def)
  have p1: "OnNextStage ?i1 (implState ?i1) (taskMgr ?d1) (task ?d1) = (Inl ?e1, 0, exampleTask TaskStatePending)"
    and p2: "OnNextStage ?i2 (implState ?i2) (taskMgr ?d2) (task ?d2) = (Inl ?e2, 0, exampleTask TaskStatePending)"
    by (simp_all add: exampleDriver_def exampleImpl_def)
  have r1: "IsRetryableErr ?i1 0 ?e1" and r2: "\<not> IsRetryableErr ?i2 0 ?e2"
    by (simp_all add: exampleImpl_def)
  have same: "?d1\<lparr>impl := Some (?i1\<lparr>implState := 0\<rparr>), task := exampleTask TaskStatePending\<rparr> = ?d1"
    by (simp add: exampleDriver_def exampleImpl_def)
  have pre: "State (exampleTask TaskStatePending) = TaskStatePending" "0 < retrySQLTimes ?d2"
    "nextFault (taskMgr ?d2) = NoFault"
    "storedState (taskMgr ?d2) (ID (exampleTask TaskStatePending)) = Some (State (exampleTask TaskStatePending))"
    "ID (exampleTask TaskStatePending) = 1"
    "(exampleTask TaskStatePending)\<lparr>Error := Some ?e2, State := TaskStateFailed\<rparr>
       = (exampleTask TaskStateFailed)\<lparr>Error := Some ?e2\<rparr>"
    by (simp_all add: example_defs nextFault_def storedState_def)
  note t1 = onNextStage_plan_error [OF i1 p1, of 7 8]
  note t2 = onNextStage_plan_error [OF i2 p2, of 7 8]
  from t1 [THEN conjunct1] r1 same
  have A: "onNextStage 7 8 ?d1 = (Some ?e1, ?d1)" by simp
  from t2 [THEN conjunct2, THEN conjunct2] r2 pre
  have B: "fst (onNextStage 7 8 ?d2) = None"
    and C: "GetGlobalTaskByID (globalTasks (taskMgr (snd (onNextStage 7 8 ?d2)))) 1
              = Some ((exampleTask TaskStateFailed)\<lparr>Error := Some ?e2\<rparr>)"
    by simp_all
  from A B C show ?thesis by simp
qed

subsection \<open>An empty plan\<close>

text \<open>
  C6. Whenever the strategy's \<open>OnNextStage\<close> returns an empty meta list and no error, the
  driver persists the task as Succeed and adds no subtasks: the subtask table is unchanged
  whatever the store answers, every call of the storage primitive writes Succeed with no
  subtasks, and from Pending or Running, in a store that accepts the write, the stored state
  becomes Succeed after one call.
\<close>

theorem onNextStage_no_metas:
  assumes im: "impl d = Some im"
    and plan: "OnNextStage im (implState im) (taskMgr d) (task d) = (Inr [], st', t')"
  shows "subtaskRows (taskMgr (snd (onNextStage nowTime nowTime2 d))) = subtaskRows (taskMgr d)
       \<and> (\<forall>c \<in> set (drop (length (updateCalls (taskMgr d)))
                        (updateCalls (taskMgr (snd (onNextStage nowTime nowTime2 d))))).
            State (fst c) = TaskStateSucceed \<and> fst (snd c) = [])
       \<and> ((State t' = TaskStatePending \<or> (State t' = TaskStateRunning \<and> 0 < retrySQLTimes d))
            \<and> nextFault (taskMgr d) = NoFault
            \<and> storedState (taskMgr d) (ID t') = Some (State t') \<longrightarrow>
            fst (onNextStage nowTime nowTime2 d) = None
            \<and> State (task (snd (onNextStage nowTime nowTime2 d))) = TaskStateSucceed
            \<and> storedState (taskMgr (snd (onNextStage nowTime nowTime2 d))) (ID t') = Some TaskStateSucceed
            \<and> updateCalls (taskMgr (snd (onNextStage nowTime nowTime2 d)))
                = updateCalls (taskMgr d) @ [(task (snd (onNextStage nowTime nowTime2 d)), [], State t')])"
proof -
  let ?t = "(stampNewTask nowTime (adjustConcurrency t'))\<lparr>StateUpdateTime := nowTime2\<rparr>"
  let ?d2 = "d\<lparr>impl := Some (im\<lparr>implState := st'\<rparr>), task := ?t\<rparr>"
  let ?rt = "if State t' = TaskStatePending then nonRetrySQLTime else retrySQLTimes d"
  let ?r = "onNextStage nowTime nowTime2 d"
  have eq: "?r = updateTask ?d2 TaskStateSucceed [] ?rt"
    using im plan
    by (simp add: onNextStage_def dispatchSubTask_def Let_def stampNewTask_fields adjustConcurrency_fields)
  have f: "State ?t = State t'" "ID ?t = ID t'"
    by (simp_all add: stampNewTask_fields adjustConcurrency_fields)
  have A: "subtaskRows (taskMgr (snd ?r)) = subtaskRows (taskMgr d)"
    using updateTask_no_subtasks [of ?d2 TaskStateSucceed ?rt] by (simp add: eq)
  obtain k where k: "updateCalls (taskMgr (snd (updateTask ?d2 TaskStateSucceed [] ?rt))) =
         updateCalls (taskMgr ?d2) @ replicate k ((task ?d2)\<lparr>State := TaskStateSucceed\<rparr>, [], State (task ?d2))"
    using updateTask_calls [of ?d2 TaskStateSucceed "[]" ?rt] by blast
  have B: "\<forall>c \<in> set (drop (length (updateCalls (taskMgr d))) (updateCalls (taskMgr (snd ?r)))).
            State (fst c) = TaskStateSucceed \<and> fst (snd c) = []"
    unfolding eq k by simp
  have C: "fst ?r = None \<and> State (task (snd ?r)) = TaskStateSucceed
           \<and> storedState (taskMgr (snd ?r)) (ID t') = Some TaskStateSucceed
           \<and> updateCalls (taskMgr (snd ?r)) = updateCalls (taskMgr d) @ [(task (snd ?r), [], State t')]"
    if st: "State t' = TaskStatePending \<or> (State t' = TaskStateRunning \<and> 0 < retrySQLTimes d)"
      and ok: "nextFault (taskMgr d) = NoFault"
      and row: "storedState (taskMgr d) (ID t') = Some (State t')"
  proof -
    have legal: "VerifyTaskStateTransform (State (task ?d2)) TaskStateSucceed"
      using st f by (auto simp: VerifyTaskStateTransform_def)
    have ok2: "nextFault (taskMgr ?d2) = NoFault" using ok by simp
    have row2: "storedState (taskMgr ?d2) (ID (task ?d2)) = Some (State (task ?d2))"
      using row f by simp
    have rt: "0 < ?rt" using st by (auto simp: nonRetrySQLTime_def)
    note p = updateTask_persists [OF legal ok2 row2 rt, of "[]"]
    from p(1) p(2) p(4) p(5) f show ?thesis by (simp add: eq)
  qed
  from A B C show ?thesis by blast
qed

theorem onNextStage_no_metas_witness:
  "fst (onNextStage 7 8 (exampleDriver TaskStatePending [] []
       (Some (exampleImpl (Inr []) exampleNodes True)))) = None
   \<and> storedState (taskMgr (snd (onNextStage 7 8 (exampleDriver TaskStatePending [] []
       (Some (exampleImpl (Inr []) exampleNodes True)))))) 1 = Some TaskStateSucceed
   \<and> subtaskRows (taskMgr (snd (onNextStage 7 8 (exampleDriver TaskStatePending [] []
       (Some (exampleImpl (Inr []) exampleNodes True)))))) = []
   \<and> fst (onNextStage 7 8 (exampleDriver TaskStateRunning [] []
       (Some (exampleImpl (Inr []) exampleNodes True)))) = None
   \<and> storedState (taskMgr (snd (onNextStage 7 8 (exampleDriver TaskStateRunning [] []
       (Some (exampleImpl (Inr []) exampleNodes True)))))) 1 = Some TaskStateSucceed
   \<and> subtaskRows (taskMgr (snd (onNextStage 7 8 (exampleDriver TaskStateRunning [] []
       (Some (exampleImpl (Inr []) exampleNodes True)))))) = []"
proof -
  let ?im = "exampleImpl (Inr []) exampleNodes True"
  let ?d1 = "exampleDriver TaskStatePending [] [] (Some ?im)"
  let ?d2 = "exampleDriver TaskStateRunning [] [] (Some ?im)"
  have i1: "impl ?d1 = Some ?im" and i2: "impl ?d2 = Some ?im"
    by (simp_all add: exampleDriver_def)
  have p1: "OnNextStage ?im (implState ?im) (taskMgr ?d1) (task ?d1) = (Inr [], 0, exampleTask TaskStatePending)"
    and p2: "OnNextStage ?im (implState ?im) (taskMgr ?d2) (task ?d2) = (Inr [], 0, exampleTask TaskStateRunning)"
    by (simp_all add: exampleDriver_def exampleImpl_def)
  have pre1: "State (exampleTask TaskStatePending) = TaskStatePending"
    "nextFault (taskMgr ?d1) = NoFault"
    "storedState (taskMgr ?d1) (ID (exampleTask TaskStatePending)) = Some (State (exampleTask TaskStatePending))"
    "ID (exampleTask TaskStatePending) = 1" "subtaskRows (taskMgr ?d1) = []"
    by (simp_all add: example_defs nextFault_def storedState_def)
  have pre2: "State (exampleTask TaskStateRunning) = TaskStateRunning" "0 < retrySQLTimes ?d2"
    "nextFault (taskMgr ?d2) = NoFault"
    "storedState (taskMgr ?d2) (ID (exampleTask TaskStateRunning)) = Some (State (exampleTask TaskStateRunning))"
    "ID (exampleTask TaskStateRunning) = 1" "subtaskRows (taskMgr ?d2) = []"
    by (simp_all add: example_defs nextFault_def storedState_def)
  note t1 = onNextStage_no_metas [OF i1 p1, of 7 8]
  note t2 = onNextStage_no_metas [OF i2 p2, of 7 8]
  from t1 [THEN conjunct1] pre1
  have A1: "subtaskRows (taskMgr (snd (onNextStage 7 8 ?d1))) = []" by simp
  from t1 [THEN conjunct2, THEN conjunct2] pre1
  have B1: "fst (onNextStage 7 8 ?d1) = None"
    and C1: "storedState (taskMgr (snd (onNextStage 7 8 ?d1))) 1 = Some TaskStateSucceed"
    by simp_all
  from t2 [THEN conjunct1] pre2
  have A2: "subtaskRows (taskMgr (snd (onNextStage 7 8 ?d2))) = []" by simp
  from t2 [THEN conjunct2, THEN conjunct2] pre2
  have B2: "fst (onNextStage 7 8 ?d2) = None"
    and C2: "storedState (taskMgr (snd (onNextStage 7 8 ?d2))) 1 = Some TaskStateSucceed"
    by simp_all
  from A1 B1 C1 A2 B2 C2 show ?thesis by simp
qed

subsection \<open>No eligible node\<close>

text \<open>
  C7, as amended. If the strategy's list of eligible instances is empty when a non-empty
  meta list is dispatched, \<open>dispatchSubTask\<close> returns the error
  \<^verbatim>\<open>"no available TiDB node to dispatch subtasks"\<close>, the store is unchanged (no task row and
  no subtask row is written, the storage primitive is not called), and the stored state of a
  Pending task stays Pending.
\<close>

theorem dispatchSubTask_no_node:
  assumes im: "impl d = Some im"
    and nodes: "GetEligibleInstances im (implState im)
                  (stampNewTask nowTime (adjustConcurrency (task d))) = Inr []"
    and metas: "metas \<noteq> []"
  shows "fst (dispatchSubTask nowTime nowTime2 d metas)
           = Some (ErrorsNew ''no available TiDB node to dispatch subtasks'')
       \<and> taskMgr (snd (dispatchSubTask nowTime nowTime2 d metas)) = taskMgr d
       \<and> (storedState (taskMgr d) (ID (task d)) = Some TaskStatePending \<longrightarrow>
            storedState (taskMgr (snd (dispatchSubTask nowTime nowTime2 d metas))) (ID (task d))
              = Some TaskStatePending)"
  using assms by (simp add: dispatchSubTask_def Let_def)

theorem dispatchSubTask_no_node_witness:
  "impl (exampleDriver TaskStatePending [] [] (Some (exampleImpl (Inr []) [] True)))
     = Some (exampleImpl (Inr []) [] True)
   \<and> fst (dispatchSubTask 7 8 (exampleDriver TaskStatePending [] [] (Some (exampleImpl (Inr []) [] True))) [[49]])
       = Some (ErrorsNew ''no available TiDB node to dispatch subtasks'')
   \<and> taskMgr (snd (dispatchSubTask 7 8 (exampleDriver TaskStatePending [] [] (Some (exampleImpl (Inr []) [] True))) [[49]]))
       = exampleStore TaskStatePending [] []
   \<and> storedState (taskMgr (snd (dispatchSubTask 7 8
         (exampleDriver TaskStatePending [] [] (Some (exampleImpl (Inr []) [] True))) [[49]]))) 1
       = Some TaskStatePending"
proof -
  let ?im = "exampleImpl (Inr []) [] True"
  let ?d = "exampleDriver TaskStatePending [] [] (Some ?im)"
  have i: "impl ?d = Some ?im" by (simp add: exampleDriver_def)
  have n: "GetEligibleInstances ?im (implState ?im) (stampNewTask 7 (adjustConcurrency (task ?d))) = Inr []"
    by (simp add: exampleImpl_def)
  have m: "[[49 :: 8 word]] \<noteq> []" by simp
  have f: "taskMgr ?d = exampleStore TaskStatePending [] []" "ID (task ?d) = 1"
    "storedState (exampleStore TaskStatePending [] []) 1 = Some TaskStatePending"
    by (simp_all add: example_defs storedState_def)
  from dispatchSubTask_no_node [OF i n m, of 8] i f show ?thesis by simp
qed

text \<open>
  C7, as stated, names the error \<^verbatim>\<open>"no available node"\<close>; the error the code returns is a
  different one.
\<close>

theorem dispatchSubTask_no_node_message:
  "fst (dispatchSubTask 7 8 (exampleDriver TaskStatePending [] [] (Some (exampleImpl (Inr []) [] True))) [[49]])
     \<noteq> Some (ErrorsNew ''no available node'')"
  by (simp add: dispatchSubTask_def Let_def exampleDriver_def exampleImpl_def)

subsection \<open>Retries of a persist\<close>

lemma update_transient:
  assumes "updateFaults tm = Transient e # fs"
  shows "UpdateGlobalTaskAndAddSubTasks tm g s p =
           ((True, Some e), tm\<lparr>updateFaults := fs, updateCalls := updateCalls tm @ [(g, s, p)]\<rparr>)"
  using assms by (simp add: UpdateGlobalTaskAndAddSubTasks_def nextFault_def Let_def)

lemma loop_retries:
  assumes "updateFaults tm = map Transient es @ rest"
    and "(case rest of [] \<Rightarrow> NoFault | f # _ \<Rightarrow> f) = NoFault"
    and "GetGlobalTaskByID (globalTasks tm) (ID g) = Some row" and "State row = p"
    and "i + int (length es) < rt"
  shows "updateTaskLoop g s p rt i err tm =
           (None,
            tm\<lparr>updateFaults := tl rest,
               updateCalls := updateCalls tm @ replicate (Suc (length es)) (g, s, p),
               globalTasks := writeTaskRow g (globalTasks tm),
               subtaskRows := subtaskRows tm @ map (newSubtaskRow g) s\<rparr>)"
  using assms
proof (induction es arbitrary: i err tm)
  case Nil
  then have "nextFault tm = NoFault" "i < rt" "updateFaults tm = rest"
    by (simp_all add: nextFault_def)
  with Nil show ?case by (simp add: loop_healthy)
next
  case (Cons e es)
  let ?tm1 = "tm\<lparr>updateFaults := map Transient es @ rest, updateCalls := updateCalls tm @ [(g, s, p)]\<rparr>"
  have U: "UpdateGlobalTaskAndAddSubTasks tm g s p = ((True, Some e), ?tm1)"
    using Cons.prems(1) by (simp add: update_transient)
  have "i < rt" using Cons.prems(5) by simp
  with U have step: "updateTaskLoop g s p rt i err tm = updateTaskLoop g s p rt (i + 1) (Some e) ?tm1"
    by (subst updateTaskLoop.simps) simp
  have "updateTaskLoop g s p rt (i + 1) (Some e) ?tm1 =
           (None,
            ?tm1\<lparr>updateFaults := tl rest,
               updateCalls := updateCalls ?tm1 @ replicate (Suc (length es)) (g, s, p),
               globalTasks := writeTaskRow g (globalTasks ?tm1),
               subtaskRows := subtaskRows ?tm1 @ map (newSubtaskRow g) s\<rparr>)"
    using Cons.prems by (intro Cons.IH) simp_all
  then show ?case
    by (simp add: step replicate_app_Cons_same)
qed

subsection \<open>A task type without a strategy\<close>

text \<open>
  C3, as amended. For every task whose type has no registered strategy, \<open>newDispatcher\<close>
  returns no driver (so there is nothing to run the schedule loop on), records the error
  \<^verbatim>\<open>"unsupported task type"\<close> on the task and sets its state to Failed, and persists the
  transition through \<open>updateTask\<close> with the retry count \<open>retrySQLTimes\<close>: every call of the
  storage primitive writes that Failed task with no subtasks, there are at most
  \<open>retrySQLTimes\<close> calls, and for a Pending task whose row is Pending, fewer than
  \<open>retrySQLTimes\<close> transient failures in a row are retried until the row is Failed.
\<close>

theorem newDispatcher_unsupported:
  assumes none: "GetTaskDispatcher (Type t) = None"
  shows "fst (fst (newDispatcher rt GetTaskDispatcher tm sid t)) = None
       \<and> snd (snd (newDispatcher rt GetTaskDispatcher tm sid t))
           = t\<lparr>Error := Some (ErrorsNew ''unsupported task type''), State := TaskStateFailed\<rparr>
       \<and> (\<exists>k. updateCalls (fst (snd (newDispatcher rt GetTaskDispatcher tm sid t)))
                = updateCalls tm @ replicate k
                    (t\<lparr>Error := Some (ErrorsNew ''unsupported task type''), State := TaskStateFailed\<rparr>,
                     [], State t)
              \<and> int k \<le> max 0 rt)
       \<and> (State t = TaskStatePending
            \<and> storedState tm (ID t) = Some TaskStatePending
            \<and> updateFaults tm = map Transient es @ rest
            \<and> (case rest of [] \<Rightarrow> NoFault | f # _ \<Rightarrow> f) = NoFault
            \<and> int (length es) < rt \<longrightarrow>
            snd (fst (newDispatcher rt GetTaskDispatcher tm sid t)) = None
            \<and> storedState (fst (snd (newDispatcher rt GetTaskDispatcher tm sid t))) (ID t)
                = Some TaskStateFailed
            \<and> length (updateCalls (fst (snd (newDispatcher rt GetTaskDispatcher tm sid t))))
                = length (updateCalls tm) + length es + 1)"
proof -
  let ?t = "t\<lparr>Error := Some (ErrorsNew ''unsupported task type'')\<rparr>"
  let ?g = "t\<lparr>Error := Some (ErrorsNew ''unsupported task type''), State := TaskStateFailed\<rparr>"
  let ?dsp = "\<lparr>taskMgr = tm, task = ?t, serverID = sid, impl = None,
                liveNodes = [], liveNodeFetchInterval = DefaultLiveNodesCheckInterval,
                liveNodeFetchTick = 0, taskNodes = [], retrySQLTimes = rt\<rparr> :: 'a dispatcher"
  let ?u = "updateTask ?dsp TaskStateFailed [] rt"
  let ?r = "newDispatcher rt GetTaskDispatcher tm sid t"
  have eq: "?r = ((None, fst ?u), taskMgr (snd ?u), task (snd ?u))"
    using none by (simp add: newDispatcher_def Let_def split: prod.splits)
  have A: "fst (fst ?r) = None" by (simp add: eq)
  have B: "snd (snd ?r) = ?g" by (simp add: eq updateTask_task)
  have C: "\<exists>k. updateCalls (fst (snd ?r)) = updateCalls tm @ replicate k (?g, [], State t)
              \<and> int k \<le> max 0 rt"
    using updateTask_calls [of ?dsp TaskStateFailed "[]" rt] by (auto simp: eq)
  have D: "snd (fst ?r) = None \<and> storedState (fst (snd ?r)) (ID t) = Some TaskStateFailed
           \<and> length (updateCalls (fst (snd ?r))) = length (updateCalls tm) + length es + 1"
    if st: "State t = TaskStatePending" and row: "storedState tm (ID t) = Some TaskStatePending"
      and fs: "updateFaults tm = map Transient es @ rest"
      and ok: "(case rest of [] \<Rightarrow> NoFault | f # _ \<Rightarrow> f) = NoFault"
      and n: "int (length es) < rt"
  proof -
    from row obtain r where r: "GetGlobalTaskByID (globalTasks tm) (ID ?g) = Some r"
      "State r = TaskStatePending"
      by (auto simp: storedState_def)
    have n': "0 + int (length es) < rt" using n by simp
    note l = loop_retries [OF fs ok r n', of "[]" None]
    have legal: "VerifyTaskStateTransform TaskStatePending TaskStateFailed"
      by (simp add: VerifyTaskStateTransform_def)
    have u: "?u = (None, ?dsp\<lparr>task := ?g,
                taskMgr := tm\<lparr>updateFaults := tl rest,
                  updateCalls := updateCalls tm @ replicate (Suc (length es)) (?g, [], TaskStatePending),
                  globalTasks := writeTaskRow ?g (globalTasks tm),
                  subtaskRows := subtaskRows tm @ map (newSubtaskRow ?g) []\<rparr>\<rparr>)"
      using legal l by (simp add: updateTask_def Let_def st)
    have w: "GetGlobalTaskByID (writeTaskRow ?g (globalTasks tm)) (ID t) = Some ?g"
      using GetGlobalTaskByID_write [OF r(1)] by simp
    show ?thesis by (simp add: eq u storedState_def w)
  qed
  from A B C D show ?thesis by blast
qed

theorem newDispatcher_unsupported_witness:
  "exampleRegistry (Type unknownTask) = None
   \<and> fst (newDispatcher 512 exampleRegistry
        (unknownStore [Transient (ErrorsNew ''lock wait timeout'')]) ''host:port'' unknownTask)
       = (None, None)
   \<and> Error (snd (snd (newDispatcher 512 exampleRegistry
        (unknownStore [Transient (ErrorsNew ''lock wait timeout'')]) ''host:port'' unknownTask)))
       = Some (ErrorsNew ''unsupported task type'')
   \<and> storedState (fst (snd (newDispatcher 512 exampleRegistry
        (unknownStore [Transient (ErrorsNew ''lock wait timeout'')]) ''host:port'' unknownTask))) 1
       = Some TaskStateFailed
   \<and> length (updateCalls (fst (snd (newDispatcher 512 exampleRegistry
        (unknownStore [Transient (ErrorsNew ''lock wait timeout'')]) ''host:port'' unknownTask)))) = 2"
proof -
  let ?e = "ErrorsNew ''lock wait timeout''"
  let ?tm = "unknownStore [Transient ?e]"
  let ?r = "newDispatcher 512 exampleRegistry ?tm ''host:port'' unknownTask"
  have none: "exampleRegistry (Type unknownTask) = None"
    by (simp add: exampleRegistry_def unknownTask_def)
  have pre: "State unknownTask = TaskStatePending
      \<and> storedState ?tm (ID unknownTask) = Some TaskStatePending
      \<and> updateFaults ?tm = map Transient [?e] @ []
      \<and> (case [] :: fault list of [] \<Rightarrow> NoFault | f # _ \<Rightarrow> f) = NoFault
      \<and> int (length [?e]) < 512"
    by (simp add: unknownTask_def unknownStore_def exampleTask_def storedState_def)
  have idf: "ID unknownTask = 1" "length (updateCalls ?tm) + length [?e] + 1 = 2"
    by (simp_all add: unknownTask_def unknownStore_def exampleTask_def)
  note t = newDispatcher_unsupported
             [where GetTaskDispatcher = exampleRegistry and t = unknownTask and rt = 512
                and tm = ?tm and sid = "''host:port''" and es = "[?e]" and rest = "[]", OF none]
  from t have A: "fst (fst ?r) = None" ..
  from t [THEN conjunct2, THEN conjunct1]
  have B: "Error (snd (snd ?r)) = Some (ErrorsNew ''unsupported task type'')" by simp
  note tD = t [THEN conjunct2, THEN conjunct2, THEN conjunct2, THEN mp, OF pre]
  from tD have C: "snd (fst ?r) = None" ..
  from tD idf have D: "storedState (fst (snd ?r)) 1 = Some TaskStateFailed"
    and E: "length (updateCalls (fst (snd ?r))) = 2"
    by (simp_all only:)
  from A C have AC: "fst ?r = (None, None)" by (simp add: prod_eq_iff)
  from none AC B D E show ?thesis by (intro conjI)
qed

text \<open>
  C3, as stated, asks for a single write without retries and for the error
  \<^verbatim>\<open>"unsupported"\<close>. With one transient failure scripted, the storage primitive is called
  twice, and the error recorded is another one.
\<close>

theorem newDispatcher_unsupported_retries:
  "length (updateCalls (fst (snd (newDispatcher 512 exampleRegistry
        (unknownStore [Transient (ErrorsNew ''lock wait timeout'')]) ''host:port'' unknownTask)))) = 2
   \<and> Error (snd (snd (newDispatcher 512 exampleRegistry
        (unknownStore [Transient (ErrorsNew ''lock wait timeout'')]) ''host:port'' unknownTask)))
       \<noteq> Some (ErrorsNew ''unsupported'')"
  by (simp add: newDispatcher_def exampleRegistry_def unknownTask_def unknownStore_def exampleTask_def
        updateTask_def VerifyTaskStateTransform_def
        updateTaskLoop.simps UpdateGlobalTaskAndAddSubTasks_def nextFault_def Let_def)

subsection \<open>The retry count of a dispatch from Pending\<close>

text \<open>
  C2 says that the persist of Pending to Running is attempted exactly once. The code hands
  \<open>retrySQLTimes\<close> to that \<open>updateTask\<close>: for a Pending task, one meta, two eligible
  servers and a store whose first update fails transiently, the storage primitive is called
  twice and the row ends Running. The persist of Pending to Succeed in the same function uses
  the single shot: with the same store and an empty meta list there is one call, the error is
  returned and the row stays Pending.
\<close>

theorem dispatchSubTask_pending_running_retried:
  "fst (dispatchSubTask 7 8
        (exampleDriver TaskStatePending [Transient (ErrorsNew ''lock wait timeout'')] []
           (Some (exampleImpl (Inr [[49]]) exampleNodes True))) [[49]]) = None
   \<and> length (updateCalls (taskMgr (snd (dispatchSubTask 7 8
        (exampleDriver TaskStatePending [Transient (ErrorsNew ''lock wait timeout'')] []
           (Some (exampleImpl (Inr [[49]]) exampleNodes True))) [[49]])))) = 2
   \<and> storedState (taskMgr (snd (dispatchSubTask 7 8
        (exampleDriver TaskStatePending [Transient (ErrorsNew ''lock wait timeout'')] []
           (Some (exampleImpl (Inr [[49]]) exampleNodes True))) [[49]]))) 1 = Some TaskStateRunning
   \<and> fst (dispatchSubTask 7 8
        (exampleDriver TaskStatePending [Transient (ErrorsNew ''lock wait timeout'')] []
           (Some (exampleImpl (Inr []) exampleNodes True))) [])
       = Some (ErrorsNew ''lock wait timeout'')
   \<and> length (updateCalls (taskMgr (snd (dispatchSubTask 7 8
        (exampleDriver TaskStatePending [Transient (ErrorsNew ''lock wait timeout'')] []
           (Some (exampleImpl (Inr []) exampleNodes True))) [])))) = 1
   \<and> storedState (taskMgr (snd (dispatchSubTask 7 8
        (exampleDriver TaskStatePending [Transient (ErrorsNew ''lock wait timeout'')] []
           (Some (exampleImpl (Inr []) exampleNodes True))) []))) 1 = Some TaskStatePending"
  by (simp add: dispatchSubTask_def example_defs adjustConcurrency_def stampNewTask_def
        DefaultSubtaskConcurrency_def MaxSubtaskConcurrency_def updateTask_def nonRetrySQLTime_def
        VerifyTaskStateTransform_def updateTaskLoop.simps UpdateGlobalTaskAndAddSubTasks_def
        nextFault_def Let_def storedState_def writeTaskRow_def)

subsection \<open>Round-robin assignment\<close>

lemma assignSubTasks_map:
  "assignSubTasks t ns i metas =
     map (\<lambda>j. NewSubtask (ID t) (Type t)
                (GenerateExecID (IP (ns ! ((i + j) mod length ns))) (Port (ns ! ((i + j) mod length ns))))
                (metas ! j))
         [0..<length metas]"
proof (induction metas arbitrary: i)
  case Nil
  then show ?case by simp
next
  case (Cons meta rest)
  show ?case
    by (simp add: Cons.IH [of "Suc i"] map_upt_Suc Let_def del: upt_Suc)
qed

lemma count_mod:
  assumes "p < K"
  shows "length (filter (\<lambda>i. i mod K = p) [0..<N]) = N div K + (if p < N mod K then 1 else 0)"
proof (induction N)
  case 0
  then show ?case by simp
next
  case (Suc N)
  have "N mod K < K" using assms by simp
  with Suc assms show ?case
    by (auto simp: mod_Suc div_Suc)
qed

lemma count_mod_fair:
  assumes "p < K" "q < K"
  shows "length (filter (\<lambda>i. i mod K = p) [0..<N]) \<le> length (filter (\<lambda>i. i mod K = q) [0..<N]) + 1"
  using assms by (simp add: count_mod)

lemma subtasksOn_assign:
  assumes d: "distinct (map (\<lambda>n. GenerateExecID (IP n) (Port n)) ns)" and p: "p < length ns"
  shows "subtasksOn (map (\<lambda>n. GenerateExecID (IP n) (Port n)) ns ! p) (assignSubTasks t ns 0 metas)
           = length (filter (\<lambda>i. i mod length ns = p) [0..<length metas])"
proof -
  let ?ids = "map (\<lambda>n. GenerateExecID (IP n) (Port n)) ns"
  have K: "0 < length ns" using p by (cases ns) simp_all
  have eq: "(?ids ! (j mod length ns) = ?ids ! p) = (j mod length ns = p)" for j
    by (rule nth_eq_iff_index_eq [OF d]) (use p K in simp_all)
  have "subtasksOn (?ids ! p) (assignSubTasks t ns 0 metas)
          = length (filter (\<lambda>j. ?ids ! (j mod length ns) = ?ids ! p) [0..<length metas])"
    using K by (simp add: subtasksOn_def assignSubTasks_map filter_map o_def NewSubtask_def)
  also have "\<dots> = length (filter (\<lambda>j. j mod length ns = p) [0..<length metas])"
    by (simp only: eq)
  finally show ?thesis .
qed

text \<open>
  C5, as amended. On a dispatch of the metas to the \<open>K > 0\<close> eligible servers, the subtask
  of the meta at index \<open>i\<close> goes to the server at index \<open>i mod K\<close>, so the node of every
  subtask is in the list of eligible servers; and when the \<^verbatim>\<open>ip:port\<close> ids of the eligible
  servers are pairwise distinct, the numbers of subtasks of two nodes differ by at most one.
  (By position in the list the numbers of indices differ by at most one in any case.) The
  subtasks are the ones handed to \<open>updateTask\<close> with the state Running, and a store that
  accepts the write holds them afterwards.
\<close>

theorem dispatchSubTask_round_robin:
  assumes im: "impl d = Some im"
    and nodes: "GetEligibleInstances im (implState im)
                  (stampNewTask nowTime (adjustConcurrency (task d))) = Inr serverNodes"
    and K: "serverNodes \<noteq> []" and N: "metas \<noteq> []"
  shows "let t = stampNewTask nowTime (adjustConcurrency (task d));
             ids = map (\<lambda>n. GenerateExecID (IP n) (Port n)) serverNodes;
             subTasks = assignSubTasks t serverNodes 0 metas
         in dispatchSubTask nowTime nowTime2 d metas =
              updateTask (d\<lparr>task := t, taskNodes := ids\<rparr>) TaskStateRunning subTasks (retrySQLTimes d)
          \<and> length subTasks = length metas
          \<and> (\<forall>i < length metas.
                subTasks ! i =
                  NewSubtask (ID (task d)) (Type (task d)) (ids ! (i mod length serverNodes)) (metas ! i))
          \<and> (\<forall>s \<in> set subTasks. SchedulerID s \<in> set ids)
          \<and> (\<forall>p < length serverNodes. \<forall>q < length serverNodes.
                length (filter (\<lambda>i. i mod length serverNodes = p) [0..<length metas])
                  \<le> length (filter (\<lambda>i. i mod length serverNodes = q) [0..<length metas]) + 1)
          \<and> (distinct ids \<longrightarrow>
                (\<forall>a \<in> set ids. \<forall>b \<in> set ids. subtasksOn a subTasks \<le> subtasksOn b subTasks + 1))
          \<and> ((State (task d) = TaskStatePending \<or> State (task d) = TaskStateRunning)
               \<and> 0 < retrySQLTimes d
               \<and> nextFault (taskMgr d) = NoFault
               \<and> storedState (taskMgr d) (ID (task d)) = Some (State (task d)) \<longrightarrow>
               fst (dispatchSubTask nowTime nowTime2 d metas) = None
               \<and> storedState (taskMgr (snd (dispatchSubTask nowTime nowTime2 d metas))) (ID (task d))
                   = Some TaskStateRunning
               \<and> map RowSubtask (subtaskRows (taskMgr (snd (dispatchSubTask nowTime nowTime2 d metas))))
                   = map RowSubtask (subtaskRows (taskMgr d)) @ subTasks)"
proof -
  let ?t = "stampNewTask nowTime (adjustConcurrency (task d))"
  let ?ids = "map (\<lambda>n. GenerateExecID (IP n) (Port n)) serverNodes"
  let ?subs = "assignSubTasks ?t serverNodes 0 metas"
  let ?K = "length serverNodes"
  let ?d2 = "d\<lparr>task := ?t, taskNodes := ?ids\<rparr>"
  let ?r = "dispatchSubTask nowTime nowTime2 d metas"
  have Kpos: "0 < ?K" using K by simp
  have f: "ID ?t = ID (task d)" "Type ?t = Type (task d)" "State ?t = State (task d)"
    by (simp_all add: stampNewTask_fields adjustConcurrency_fields)
  have A: "?r = updateTask ?d2 TaskStateRunning ?subs (retrySQLTimes d)"
    using im nodes K N by (simp add: dispatchSubTask_def Let_def)
  have B: "length ?subs = length metas"
    by (simp add: assignSubTasks_map)
  have C: "\<forall>i < length metas.
             ?subs ! i = NewSubtask (ID (task d)) (Type (task d)) (?ids ! (i mod ?K)) (metas ! i)"
    using Kpos by (simp add: assignSubTasks_map f)
  have D: "\<forall>s \<in> set ?subs. SchedulerID s \<in> set ?ids"
  proof
    fix s assume "s \<in> set ?subs"
    then obtain j where "j < length metas"
      "s = NewSubtask (ID ?t) (Type ?t)
             (GenerateExecID (IP (serverNodes ! (j mod ?K))) (Port (serverNodes ! (j mod ?K)))) (metas ! j)"
      by (auto simp: assignSubTasks_map)
    moreover have "serverNodes ! (j mod ?K) \<in> set serverNodes"
      using Kpos by simp
    ultimately show "SchedulerID s \<in> set ?ids"
      by (auto simp: NewSubtask_def)
  qed
  have E: "\<forall>p < ?K. \<forall>q < ?K.
             length (filter (\<lambda>i. i mod ?K = p) [0..<length metas])
               \<le> length (filter (\<lambda>i. i mod ?K = q) [0..<length metas]) + 1"
    by (intro allI impI count_mod_fair)
  have F: "\<forall>a \<in> set ?ids. \<forall>b \<in> set ?ids. subtasksOn a ?subs \<le> subtasksOn b ?subs + 1"
    if dist: "distinct ?ids"
  proof (intro ballI)
    fix a b assume "a \<in> set ?ids" "b \<in> set ?ids"
    then obtain p q where "p < length ?ids" "?ids ! p = a" "q < length ?ids" "?ids ! q = b"
      unfolding in_set_conv_nth by blast
    then have pq: "p < ?K" "a = ?ids ! p" "q < ?K" "b = ?ids ! q"
      by (simp_all only: length_map)
    show "subtasksOn a ?subs \<le> subtasksOn b ?subs + 1"
      unfolding pq(2) pq(4) subtasksOn_assign [OF dist pq(1)] subtasksOn_assign [OF dist pq(3)]
      by (rule count_mod_fair [OF pq(1) pq(3)])
  qed
  have G: "fst ?r = None \<and> storedState (taskMgr (snd ?r)) (ID (task d)) = Some TaskStateRunning
           \<and> map RowSubtask (subtaskRows (taskMgr (snd ?r))) = map RowSubtask (subtaskRows (taskMgr d)) @ ?subs"
    if st: "State (task d) = TaskStatePending \<or> State (task d) = TaskStateRunning"
      and rt: "0 < retrySQLTimes d"
      and ok: "nextFault (taskMgr d) = NoFault"
      and row: "storedState (taskMgr d) (ID (task d)) = Some (State (task d))"
  proof -
    have legal: "VerifyTaskStateTransform (State (task ?d2)) TaskStateRunning"
      using st f by (auto simp: VerifyTaskStateTransform_def)
    have ok2: "nextFault (taskMgr ?d2) = NoFault" using ok by simp
    have row2: "storedState (taskMgr ?d2) (ID (task ?d2)) = Some (State (task ?d2))"
      using row f by simp
    note p = updateTask_persists [OF legal ok2 row2 rt, of ?subs]
    from p(1) p(4) p(6) f show ?thesis
      by (simp add: A o_def newSubtaskRow_def)
  qed
  from F have F': "distinct ?ids \<longrightarrow>
      (\<forall>a \<in> set ?ids. \<forall>b \<in> set ?ids. subtasksOn a ?subs \<le> subtasksOn b ?subs + 1)" ..
  from G have G': "(State (task d) = TaskStatePending \<or> State (task d) = TaskStateRunning)
               \<and> 0 < retrySQLTimes d
               \<and> nextFault (taskMgr d) = NoFault
               \<and> storedState (taskMgr d) (ID (task d)) = Some (State (task d)) \<longrightarrow>
      fst ?r = None \<and> storedState (taskMgr (snd ?r)) (ID (task d)) = Some TaskStateRunning
           \<and> map RowSubtask (subtaskRows (taskMgr (snd ?r))) = map RowSubtask (subtaskRows (taskMgr d)) @ ?subs"
    by (intro impI) (elim conjE, rule G)
  show ?thesis
    unfolding Let_def by (intro conjI A B C D E F' G')
qed


lemma exampleNodes_ids:
  "map (\<lambda>n. GenerateExecID (IP n) (Port n)) exampleNodes =
     [''10.123.124.10:32457'', ''[ABCD:EF01:2345:6789:ABCD:EF01:2345:6789]:65535'']"
  by (simp add: exampleNodes_def GenerateExecID_def decimal.simps digitChar_def)

theorem dispatchSubTask_round_robin_witness:
  "distinct (map (\<lambda>n. GenerateExecID (IP n) (Port n)) exampleNodes)
   \<and> fst (dispatchSubTask 7 8
        (exampleDriver TaskStatePending [] [] (Some (exampleImpl (Inr [[49], [50], [51]]) exampleNodes True)))
        [[49], [50], [51]]) = None
   \<and> storedState (taskMgr (snd (dispatchSubTask 7 8
        (exampleDriver TaskStatePending [] [] (Some (exampleImpl (Inr [[49], [50], [51]]) exampleNodes True)))
        [[49], [50], [51]]))) 1 = Some TaskStateRunning
   \<and> map (\<lambda>r. (SchedulerID (RowSubtask r), Meta (RowSubtask r)))
        (subtaskRows (taskMgr (snd (dispatchSubTask 7 8
          (exampleDriver TaskStatePending [] [] (Some (exampleImpl (Inr [[49], [50], [51]]) exampleNodes True)))
          [[49], [50], [51]]))))
       = [(''10.123.124.10:32457'', [49]),
          (''[ABCD:EF01:2345:6789:ABCD:EF01:2345:6789]:65535'', [50]),
          (''10.123.124.10:32457'', [51])]
   \<and> subtasksOn ''10.123.124.10:32457''
         (assignSubTasks (stampNewTask 7 (adjustConcurrency (exampleTask TaskStatePending)))
            exampleNodes 0 [[49], [50], [51]])
       \<le> subtasksOn ''[ABCD:EF01:2345:6789:ABCD:EF01:2345:6789]:65535''
           (assignSubTasks (stampNewTask 7 (adjustConcurrency (exampleTask TaskStatePending)))
              exampleNodes 0 [[49], [50], [51]]) + 1"
proof -
  let ?metas = "[[49], [50], [51]] :: bytes list"
  let ?im = "exampleImpl (Inr ?metas) exampleNodes True"
  let ?d = "exampleDriver TaskStatePending [] [] (Some ?im)"
  let ?t = "stampNewTask 7 (adjustConcurrency (task ?d))"
  let ?subs = "assignSubTasks ?t exampleNodes 0 ?metas"
  have i: "impl ?d = Some ?im" by (simp add: exampleDriver_def)
  have n: "GetEligibleInstances ?im (implState ?im) ?t = Inr exampleNodes"
    by (simp add: exampleImpl_def)
  have K: "exampleNodes \<noteq> []" by (simp add: exampleNodes_def)
  have N: "?metas \<noteq> []" by simp
  have dist: "distinct (map (\<lambda>n. GenerateExecID (IP n) (Port n)) exampleNodes)"
    by (simp add: exampleNodes_ids)
  have pre: "State (task ?d) = TaskStatePending" "0 < retrySQLTimes ?d"
    "nextFault (taskMgr ?d) = NoFault"
    "storedState (taskMgr ?d) (ID (task ?d)) = Some (State (task ?d))"
    by (simp_all add: example_defs nextFault_def storedState_def)
  have idf: "ID (task ?d) = 1" and rows: "subtaskRows (taskMgr ?d) = []"
    by (simp_all add: example_defs)
  note t = dispatchSubTask_round_robin [OF i n K N, of 8, unfolded Let_def]
  note tG = t [THEN conjunct2, THEN conjunct2, THEN conjunct2, THEN conjunct2, THEN conjunct2,
               THEN conjunct2]
  have G: "fst (dispatchSubTask 7 8 ?d ?metas) = None
           \<and> storedState (taskMgr (snd (dispatchSubTask 7 8 ?d ?metas))) (ID (task ?d))
               = Some TaskStateRunning
           \<and> map RowSubtask (subtaskRows (taskMgr (snd (dispatchSubTask 7 8 ?d ?metas))))
               = map RowSubtask (subtaskRows (taskMgr ?d)) @ ?subs"
    by (rule tG [THEN mp]) (simp only: pre simp_thms)
  from G have A: "fst (dispatchSubTask 7 8 ?d ?metas) = None" ..
  from G idf have B: "storedState (taskMgr (snd (dispatchSubTask 7 8 ?d ?metas))) 1 = Some TaskStateRunning"
    by (simp only:)
  from G have C: "map RowSubtask (subtaskRows (taskMgr (snd (dispatchSubTask 7 8 ?d ?metas)))) = ?subs"
    by (simp only: rows list.map append_Nil)
  have E: "map (\<lambda>s. (SchedulerID s, Meta s)) ?subs
       = [(''10.123.124.10:32457'', [49]),
          (''[ABCD:EF01:2345:6789:ABCD:EF01:2345:6789]:65535'', [50]),
          (''10.123.124.10:32457'', [51])]"
    by (simp add: NewSubtask_def exampleNodes_def GenerateExecID_def decimal.simps digitChar_def)
  have "map (\<lambda>r. (SchedulerID (RowSubtask r), Meta (RowSubtask r)))
          (subtaskRows (taskMgr (snd (dispatchSubTask 7 8 ?d ?metas))))
        = map (\<lambda>s. (SchedulerID s, Meta s))
            (map RowSubtask (subtaskRows (taskMgr (snd (dispatchSubTask 7 8 ?d ?metas)))))"
    by (simp only: map_map o_def)
  also note C
  also note E
  finally have F: "map (\<lambda>r. (SchedulerID (RowSubtask r), Meta (RowSubtask r)))
          (subtaskRows (taskMgr (snd (dispatchSubTask 7 8 ?d ?metas))))
       = [(''10.123.124.10:32457'', [49]),
          (''[ABCD:EF01:2345:6789:ABCD:EF01:2345:6789]:65535'', [50]),
          (''10.123.124.10:32457'', [51])]" .
  note tF = t [THEN conjunct2, THEN conjunct2, THEN conjunct2, THEN conjunct2, THEN conjunct2,
               THEN conjunct1, THEN mp, OF dist]
  have mem: "''10.123.124.10:32457'' \<in> set (map (\<lambda>n. GenerateExecID (IP n) (Port n)) exampleNodes)"
    "''[ABCD:EF01:2345:6789:ABCD:EF01:2345:6789]:65535''
       \<in> set (map (\<lambda>n. GenerateExecID (IP n) (Port n)) exampleNodes)"
    by (simp_all add: exampleNodes_ids)
  have td: "task ?d = exampleTask TaskStatePending" by (simp add: exampleDriver_def)
  from tF [THEN bspec, OF mem(1), THEN bspec, OF mem(2)]
  have H: "subtasksOn ''10.123.124.10:32457''
         (assignSubTasks (stampNewTask 7 (adjustConcurrency (exampleTask TaskStatePending)))
            exampleNodes 0 ?metas)
       \<le> subtasksOn ''[ABCD:EF01:2345:6789:ABCD:EF01:2345:6789]:65535''
           (assignSubTasks (stampNewTask 7 (adjustConcurrency (exampleTask TaskStatePending)))
              exampleNodes 0 ?metas) + 1"
    by (simp only: td)
  from dist A B F H show ?thesis by (intro conjI)
qed

text \<open>
  C5, as stated, promises the fairness for every list of eligible servers. When the list
  repeats an \<^verbatim>\<open>ip:port\<close>, the node ids of the positions coincide: with three servers at
  \<^verbatim>\<open>10.0.0.1:4000\<close>, one at \<^verbatim>\<open>10.0.0.2:4000\<close> and three metas, the dispatch succeeds and
  the store holds three subtasks for the first node and none for the second.
\<close>

theorem dispatchSubTask_round_robin_repeated_node:
  "fst (dispatchSubTask 7 8
        (exampleDriver TaskStatePending [] []
           (Some (exampleImpl (Inr [[49], [50], [51]]) repeatedNodes True)))
        [[49], [50], [51]]) = None
   \<and> set (map (\<lambda>n. GenerateExecID (IP n) (Port n)) repeatedNodes)
       = {''10.0.0.1:4000'', ''10.0.0.2:4000''}
   \<and> subtasksOn ''10.0.0.1:4000''
        (map RowSubtask (subtaskRows (taskMgr (snd (dispatchSubTask 7 8
           (exampleDriver TaskStatePending [] []
              (Some (exampleImpl (Inr [[49], [50], [51]]) repeatedNodes True)))
           [[49], [50], [51]]))))) = 3
   \<and> subtasksOn ''10.0.0.2:4000''
        (map RowSubtask (subtaskRows (taskMgr (snd (dispatchSubTask 7 8
           (exampleDriver TaskStatePending [] []
              (Some (exampleImpl (Inr [[49], [50], [51]]) repeatedNodes True)))
           [[49], [50], [51]]))))) = 0
   \<and> \<not> subtasksOn ''10.0.0.1:4000''
        (map RowSubtask (subtaskRows (taskMgr (snd (dispatchSubTask 7 8
           (exampleDriver TaskStatePending [] []
              (Some (exampleImpl (Inr [[49], [50], [51]]) repeatedNodes True)))
           [[49], [50], [51]])))))
       \<le> subtasksOn ''10.0.0.2:4000''
        (map RowSubtask (subtaskRows (taskMgr (snd (dispatchSubTask 7 8
           (exampleDriver TaskStatePending [] []
              (Some (exampleImpl (Inr [[49], [50], [51]]) repeatedNodes True)))
           [[49], [50], [51]]))))) + 1"
  by (simp add: dispatchSubTask_def exampleTask_def exampleStore_def exampleImpl_def
        exampleDriver_def repeatedNodes_def adjustConcurrency_def stampNewTask_def
        DefaultSubtaskConcurrency_def MaxSubtaskConcurrency_def updateTask_def nonRetrySQLTime_def
        VerifyTaskStateTransform_def updateTaskLoop.simps UpdateGlobalTaskAndAddSubTasks_def
        nextFault_def Let_def writeTaskRow_def subtasksOn_def NewSubtask_def newSubtaskRow_def
        GenerateExecID_def decimal.simps digitChar_def)


end
